theory Spec2Isabelle
  imports
    Complex_Main
    "HOL-Library.Product_Lexorder"
    "HOL-Library.List_Lexorder"
    "HOL-Library.Char_ord"
begin

section \<open>The temporal fact table\<close>

text \<open>
  A row of the table \<^verbatim>\<open>temporal_facts\<close>, with the columns every query of
  \<^verbatim>\<open>temporal_graph/query.ts\<close> selects. Instants are milliseconds since the epoch
  (\<^verbatim>\<open>Date.getTime()\<close>); \<^verbatim>\<open>valid_to\<close>, \<^verbatim>\<open>metadata\<close> and \<^verbatim>\<open>user_id\<close> are nullable.
  The confidence is a number that is only ever compared, so it is a real here. The
  metadata is the stored JSON text. The table is the list of its rows in storage order.
\<close>

record temporal_fact =
  fact_id :: string
  subject :: string
  predicate :: string
  object :: string
  valid_from :: int
  valid_to :: "int option"
  confidence :: real
  last_updated :: int
  metadata :: "string option"
  user_id :: "string option"

type_synonym fact_table = "temporal_fact list"

text \<open>
  The test \<^verbatim>\<open>if (x)\<close> on an optional string parameter: \<^verbatim>\<open>undefined\<close> and the empty
  string are both falsy.
\<close>

definition truthy :: "string option \<Rightarrow> bool" where
  "truthy x = (case x of None \<Rightarrow> False | Some s \<Rightarrow> s \<noteq> [])"

text \<open>
  \<^verbatim>\<open>if (x) { conditions.push('col = ?'); params.push(x) }\<close>: the condition is
  added only for a truthy parameter, and it is then bound to the parameter's value.
\<close>

definition push_if :: "string option \<Rightarrow> (string \<Rightarrow> 'c) \<Rightarrow> 'c list" where
  "push_if x c = (case x of None \<Rightarrow> [] | Some s \<Rightarrow> if s = [] then [] else [c s])"

text \<open>
  \<^verbatim>\<open>SELECT ... FROM temporal_facts WHERE c1 AND c2 AND ...\<close>: the rows that satisfy
  every condition of the list (all rows when the list is empty).
\<close>

definition select_where :: "('r \<Rightarrow> bool) list \<Rightarrow> 'r list \<Rightarrow> 'r list" where
  "select_where conditions rows = filter (\<lambda>r. list_all (\<lambda>c. c r) conditions) rows"

text \<open>
  The condition \<^verbatim>\<open>(valid_from <= ? AND (valid_to IS NULL OR valid_to >= ?))\<close> with
  both parameters bound to the same timestamp.
\<close>

definition active_at :: "int \<Rightarrow> temporal_fact \<Rightarrow> bool" where
  "active_at timestamp r =
     (valid_from r \<le> timestamp \<and>
      (case valid_to r of None \<Rightarrow> True | Some vt \<Rightarrow> timestamp \<le> vt))"

text \<open>
  The conditions \<^verbatim>\<open>user_id = ?\<close>, \<^verbatim>\<open>subject = ?\<close>, \<^verbatim>\<open>predicate = ?\<close>,
  \<^verbatim>\<open>object = ?\<close> and \<^verbatim>\<open>confidence >= ?\<close>. A row whose \<^verbatim>\<open>user_id\<close> is NULL
  satisfies no \<^verbatim>\<open>user_id = ?\<close>.
\<close>

definition user_id_eq :: "string \<Rightarrow> temporal_fact \<Rightarrow> bool" where
  "user_id_eq u r = (user_id r = Some u)"

definition subject_eq :: "string \<Rightarrow> temporal_fact \<Rightarrow> bool" where
  "subject_eq s r = (subject r = s)"

definition predicate_eq :: "string \<Rightarrow> temporal_fact \<Rightarrow> bool" where
  "predicate_eq p r = (predicate r = p)"

definition object_eq :: "string \<Rightarrow> temporal_fact \<Rightarrow> bool" where
  "object_eq ob r = (object r = ob)"

definition confidence_ge :: "real \<Rightarrow> temporal_fact \<Rightarrow> bool" where
  "confidence_ge c r = (c \<le> confidence r)"

text \<open>
  The mapping applied to every returned row. \<^verbatim>\<open>row.valid_to ? new Date(...) : null\<close>
  turns a stored \<^verbatim>\<open>valid_to\<close> of 0 into null, and
  \<^verbatim>\<open>row.metadata ? JSON.parse(row.metadata) : undefined\<close> drops an empty metadata text
  (the parsing itself is not modelled: the metadata stays the JSON text).
\<close>

definition row_to_fact :: "temporal_fact \<Rightarrow> temporal_fact" where
  "row_to_fact row =
     row\<lparr>valid_to := (case valid_to row of None \<Rightarrow> None
                       | Some vt \<Rightarrow> if vt = 0 then None else Some vt),
         metadata := (if truthy (metadata row) then metadata row else None)\<rparr>"

section \<open>The temporal queries\<close>

text \<open>
  \<^verbatim>\<open>query_facts_at_time\<close>: the parameters are primed where they would clash with a
  column of the row. The caller (or the default value) supplies \<^verbatim>\<open>at\<close> and
  \<^verbatim>\<open>min_confidence\<close>. \<^verbatim>\<open>ORDER BY confidence DESC, valid_from DESC\<close> is a stable sort
  on the negated keys: rows with equal keys stay in storage order.
\<close>

definition query_facts_at_time ::
  "fact_table \<Rightarrow> string option \<Rightarrow> string option \<Rightarrow> string option \<Rightarrow> int \<Rightarrow> real \<Rightarrow>
     string option \<Rightarrow> temporal_fact list" where
  "query_facts_at_time db subject' predicate' object' at' min_confidence user_id' =
     (let timestamp = at';
          conditions =
            [active_at timestamp]
            @ push_if user_id' user_id_eq
            @ push_if subject' subject_eq
            @ push_if predicate' predicate_eq
            @ push_if object' object_eq
            @ (if min_confidence > 0 then [confidence_ge min_confidence] else []);
          rows = sort_key (\<lambda>r. (- confidence r, - valid_from r)) (select_where conditions db)
      in map row_to_fact rows)"

text \<open>
  \<^verbatim>\<open>query_facts_in_range\<close>: with both bounds the condition is
  \<^verbatim>\<open>((valid_from <= to AND (valid_to IS NULL OR valid_to >= from)) OR
  (valid_from >= from AND valid_from <= to))\<close>; with \<^verbatim>\<open>from\<close> alone it is
  \<^verbatim>\<open>valid_from >= from\<close>; with \<^verbatim>\<open>to\<close> alone \<^verbatim>\<open>valid_from <= to\<close>; with neither
  bound there is no condition on time. A \<^verbatim>\<open>Date\<close> object is always truthy, so the
  tests \<^verbatim>\<open>from && to\<close>, \<^verbatim>\<open>from\<close>, \<^verbatim>\<open>to\<close> only ask whether the bound was given.
\<close>

definition range_both :: "int \<Rightarrow> int \<Rightarrow> temporal_fact \<Rightarrow> bool" where
  "range_both from_ts to_ts r =
     ((valid_from r \<le> to_ts \<and> (case valid_to r of None \<Rightarrow> True | Some vt \<Rightarrow> from_ts \<le> vt))
      \<or> (from_ts \<le> valid_from r \<and> valid_from r \<le> to_ts))"

definition valid_from_ge :: "int \<Rightarrow> temporal_fact \<Rightarrow> bool" where
  "valid_from_ge from_ts r = (from_ts \<le> valid_from r)"

definition valid_from_le :: "int \<Rightarrow> temporal_fact \<Rightarrow> bool" where
  "valid_from_le to_ts r = (valid_from r \<le> to_ts)"

definition query_facts_in_range ::
  "fact_table \<Rightarrow> string option \<Rightarrow> string option \<Rightarrow> int option \<Rightarrow> int option \<Rightarrow> real \<Rightarrow>
     string option \<Rightarrow> temporal_fact list" where
  "query_facts_in_range db subject' predicate' from' to' min_confidence user_id' =
     (let conditions =
            (case (from', to') of
               (Some from_ts, Some to_ts) \<Rightarrow> [range_both from_ts to_ts]
             | (Some from_ts, None) \<Rightarrow> [valid_from_ge from_ts]
             | (None, Some to_ts) \<Rightarrow> [valid_from_le to_ts]
             | (None, None) \<Rightarrow> [])
            @ push_if user_id' user_id_eq
            @ push_if subject' subject_eq
            @ push_if predicate' predicate_eq
            @ (if min_confidence > 0 then [confidence_ge min_confidence] else []);
          rows = sort_key (\<lambda>r. - valid_from r) (select_where conditions db)
      in map row_to_fact rows)"

text \<open>
  \<^verbatim>\<open>get_current_fact\<close>: subject and predicate are required parameters, bound
  unconditionally; the third fixed condition is \<^verbatim>\<open>valid_to IS NULL\<close>.
  \<^verbatim>\<open>ORDER BY valid_from DESC LIMIT 1\<close>, and \<^verbatim>\<open>get_async\<close> yields the first row or
  nothing. The function reads no clock.
\<close>

definition valid_to_is_null :: "temporal_fact \<Rightarrow> bool" where
  "valid_to_is_null r = (valid_to r = None)"

definition get_current_fact ::
  "fact_table \<Rightarrow> string \<Rightarrow> string \<Rightarrow> string option \<Rightarrow> temporal_fact option" where
  "get_current_fact db subject' predicate' user_id' =
     (let conditions =
            [subject_eq subject', predicate_eq predicate', valid_to_is_null]
            @ push_if user_id' user_id_eq;
          rows = take 1 (sort_key (\<lambda>r. - valid_from r) (select_where conditions db))
      in case rows of [] \<Rightarrow> None | row # _ \<Rightarrow> Some (row_to_fact row))"

text \<open>
  \<^verbatim>\<open>find_conflicting_facts\<close>: \<^verbatim>\<open>at ? at.getTime() : Date.now()\<close> reads the clock
  when no instant is given; \<open>now\<close> is that reading.
\<close>

definition find_conflicting_facts ::
  "fact_table \<Rightarrow> int \<Rightarrow> string \<Rightarrow> string \<Rightarrow> int option \<Rightarrow> string option \<Rightarrow>
     temporal_fact list" where
  "find_conflicting_facts db now subject' predicate' at' user_id' =
     (let timestamp = (case at' of Some a \<Rightarrow> a | None \<Rightarrow> now);
          conditions =
            [subject_eq subject', predicate_eq predicate', active_at timestamp]
            @ push_if user_id' user_id_eq;
          rows = sort_key (\<lambda>r. - confidence r) (select_where conditions db)
      in map row_to_fact rows)"

text \<open>
  \<^verbatim>\<open>get_facts_by_subject\<close>: with \<^verbatim>\<open>include_historical\<close> every fact of the subject,
  \<^verbatim>\<open>ORDER BY predicate ASC, valid_from DESC\<close>; otherwise the facts active at the
  instant, \<^verbatim>\<open>ORDER BY predicate ASC, confidence DESC\<close>. Strings are ordered
  bytewise.
\<close>

definition get_facts_by_subject ::
  "fact_table \<Rightarrow> int \<Rightarrow> string \<Rightarrow> int option \<Rightarrow> bool \<Rightarrow> string option \<Rightarrow>
     temporal_fact list" where
  "get_facts_by_subject db now subject' at' include_historical user_id' =
     (let rows =
            (if include_historical then
               (let conditions = [subject_eq subject'] @ push_if user_id' user_id_eq
                in sort_key (\<lambda>r. (predicate r, - valid_from r)) (select_where conditions db))
             else
               (let timestamp = (case at' of Some a \<Rightarrow> a | None \<Rightarrow> now);
                    conditions =
                      [subject_eq subject', active_at timestamp] @ push_if user_id' user_id_eq
                in sort_key (\<lambda>r. (predicate r, - confidence r)) (select_where conditions db)))
      in map row_to_fact rows)"

subsection \<open>The LIKE operator of the storage backend\<close>

text \<open>
  \<^verbatim>\<open>search_facts\<close> hands the pattern \<^verbatim>\<open>`%${pattern}%`\<close> to the backend's
  \<^verbatim>\<open>LIKE\<close> with no \<^verbatim>\<open>ESCAPE\<close> clause and without escaping the caller's text.
  The metadata backend is SQLite or PostgreSQL. In both, \<^verbatim>\<open>%\<close> matches any run of
  characters and \<^verbatim>\<open>_\<close> any one character. SQLite compares the other characters
  ignoring ASCII case and has no escape character; PostgreSQL compares them exactly and
  takes a backslash as the escape character: the character after it stands for itself.
\<close>

datatype backend = Sqlite | Postgres

definition ascii_lower :: "char \<Rightarrow> char" where
  "ascii_lower c =
     (let n = (of_char c :: nat) in if 65 \<le> n \<and> n \<le> 90 then char_of (n + 32) else c)"

definition char_like :: "backend \<Rightarrow> char \<Rightarrow> char \<Rightarrow> bool" where
  "char_like b p c = (case b of Sqlite \<Rightarrow> ascii_lower p = ascii_lower c | Postgres \<Rightarrow> p = c)"

fun sql_like :: "backend \<Rightarrow> string \<Rightarrow> string \<Rightarrow> bool" where
  "sql_like b [] s = (s = [])"
| "sql_like b (p # ps) s =
     (if p = CHR ''%'' then
        (sql_like b ps s \<or> (case s of [] \<Rightarrow> False | c # cs \<Rightarrow> sql_like b (p # ps) cs))
      else if p = CHR ''_'' then
        (case s of [] \<Rightarrow> False | c # cs \<Rightarrow> sql_like b ps cs)
      else if b = Postgres \<and> p = CHR 0x5C then
        (case ps of [] \<Rightarrow> False
         | q # qs \<Rightarrow> (case s of [] \<Rightarrow> False | c # cs \<Rightarrow> q = c \<and> sql_like b qs cs))
      else
        (case s of [] \<Rightarrow> False | c # cs \<Rightarrow> char_like b p c \<and> sql_like b ps cs))"

text \<open>
  \<^verbatim>\<open>search_facts\<close>: the field is one of the three columns (the parameter's type
  admits nothing else), the condition is \<^verbatim>\<open>${field} LIKE ?\<close>,
  \<^verbatim>\<open>ORDER BY confidence DESC, valid_from DESC LIMIT 100\<close>.
\<close>

datatype fact_field = Subject | Predicate | Object

fun column :: "fact_field \<Rightarrow> temporal_fact \<Rightarrow> string" where
  "column Subject r = subject r"
| "column Predicate r = predicate r"
| "column Object r = object r"

definition field_like :: "backend \<Rightarrow> fact_field \<Rightarrow> string \<Rightarrow> temporal_fact \<Rightarrow> bool" where
  "field_like b field' search_pattern r = sql_like b search_pattern (column field' r)"

definition search_facts ::
  "backend \<Rightarrow> fact_table \<Rightarrow> int \<Rightarrow> string \<Rightarrow> fact_field \<Rightarrow> int option \<Rightarrow> string option \<Rightarrow>
     temporal_fact list" where
  "search_facts b db now pattern field' at' user_id' =
     (let timestamp = (case at' of Some a \<Rightarrow> a | None \<Rightarrow> now);
          search_pattern = ''%'' @ pattern @ ''%'';
          conditions =
            [field_like b field' search_pattern, active_at timestamp]
            @ push_if user_id' user_id_eq;
          rows = take 100 (sort_key (\<lambda>r. (- confidence r, - valid_from r))
                             (select_where conditions db))
      in map row_to_fact rows)"

text \<open>
  A pattern text in which no character is special for the backend's \<^verbatim>\<open>LIKE\<close>.
\<close>

definition plain_pattern :: "backend \<Rightarrow> string \<Rightarrow> bool" where
  "plain_pattern b pat =
     (CHR ''%'' \<notin> set pat \<and> CHR ''_'' \<notin> set pat \<and> (b = Postgres \<longrightarrow> CHR 0x5C \<notin> set pat))"

text \<open>
  The order of \<^verbatim>\<open>ORDER BY confidence DESC, valid_from DESC\<close> on two facts: \<open>x\<close> may
  stand before \<open>y\<close>.
\<close>

definition ranks_no_lower :: "temporal_fact \<Rightarrow> temporal_fact \<Rightarrow> bool" where
  "ranks_no_lower x y =
     (confidence y < confidence x \<or> (confidence y = confidence x \<and> valid_from y \<le> valid_from x))"

section \<open>Ownership and the scenario tables\<close>

text \<open>
  The rows of a table that a user owns, in storage order. Two tables with the same rows
  of \<open>u\<close> differ only in rows of other owners (or of none).
\<close>

definition facts_of_user :: "string \<Rightarrow> fact_table \<Rightarrow> fact_table" where
  "facts_of_user u db = filter (\<lambda>r. user_id r = Some u) db"

text \<open>
  The table of the supersession scenario: alice's employment at Acme from 2023-01-01,
  closed at 2024-06-01 (1717200000000 ms), the instant from which her employment at
  Globex is valid and open. A further row, not part of that table, is bob's open
  employment at Acme.
\<close>

definition S2_acme :: temporal_fact where
  "S2_acme = \<lparr>fact_id = ''f1'', subject = ''alice'', predicate = ''works_at'',
     object = ''Acme'', valid_from = 1672531200000, valid_to = Some 1717200000000,
     confidence = 1, last_updated = 1717200000000, metadata = None,
     user_id = Some ''alice''\<rparr>"

definition S2_globex :: temporal_fact where
  "S2_globex = \<lparr>fact_id = ''f2'', subject = ''alice'', predicate = ''works_at'',
     object = ''Globex'', valid_from = 1717200000000, valid_to = None,
     confidence = 1, last_updated = 1717200000000, metadata = None,
     user_id = Some ''alice''\<rparr>"

definition bob_acme :: temporal_fact where
  "bob_acme = \<lparr>fact_id = ''f3'', subject = ''bob'', predicate = ''works_at'',
     object = ''Acme'', valid_from = 1672531200000, valid_to = None,
     confidence = 1, last_updated = 1672531200000, metadata = None,
     user_id = Some ''bob''\<rparr>"

definition S2_table :: fact_table where
  "S2_table = [S2_acme, S2_globex]"

section \<open>Updating, invalidating and deleting a fact\<close>

text \<open>
  \<^verbatim>\<open>throw new Error(message)\<close>: an error is its message.
\<close>

datatype error = Error string

text \<open>
  \<^verbatim>\<open>x || this.default_user\<close> on an optional string: the left operand when it is
  truthy, otherwise the default user, which is a string or null.
\<close>

definition or_default :: "string option \<Rightarrow> string option \<Rightarrow> string option" where
  "or_default x d = (if truthy x then x else d)"

text \<open>
  \<^verbatim>\<open>Memory.updateFact\<close>, \<^verbatim>\<open>Memory.invalidateFact\<close> and \<^verbatim>\<open>Memory.deleteFact\<close>.
  The result is the outcome together with the table afterwards. Under a user scope each
  first runs \<^verbatim>\<open>SELECT user_id FROM temporal_facts WHERE id = ?\<close> (the first row with
  the id, if any) and throws when there is no row, or when the row's \<^verbatim>\<open>user_id\<close>
  differs from the scope (\<^verbatim>\<open>!==\<close>, so a null owner differs from every scope). Only
  then is the store operation of \<^verbatim>\<open>temporal_graph/store.ts\<close> called; that file is not
  among the sources, so the store operation is a parameter.
\<close>

definition updateFact ::
  "(string \<Rightarrow> real option \<Rightarrow> 'm option \<Rightarrow> fact_table \<Rightarrow> (error + unit) \<times> fact_table) \<Rightarrow>
     string option \<Rightarrow> fact_table \<Rightarrow> string \<Rightarrow> real option \<Rightarrow> 'm option \<Rightarrow> string option \<Rightarrow>
     (error + unit) \<times> fact_table" where
  "updateFact update_fact default_user db id' confidence' metadata' user_id' =
     (case or_default user_id' default_user of
        None \<Rightarrow> update_fact id' confidence' metadata' db
      | Some uid \<Rightarrow>
          if uid \<noteq> [] then
            (case find (\<lambda>r. fact_id r = id') db of
               None \<Rightarrow> (Inl (Error (''Fact '' @ id' @ '' not found'')), db)
             | Some row \<Rightarrow>
                 if user_id row \<noteq> Some uid
                 then (Inl (Error (''Fact '' @ id' @ '' not found for user '' @ uid)), db)
                 else update_fact id' confidence' metadata' db)
          else update_fact id' confidence' metadata' db)"

definition invalidateFact ::
  "(string \<Rightarrow> int option \<Rightarrow> fact_table \<Rightarrow> (error + unit) \<times> fact_table) \<Rightarrow>
     string option \<Rightarrow> fact_table \<Rightarrow> string \<Rightarrow> int option \<Rightarrow> string option \<Rightarrow>
     (error + unit) \<times> fact_table" where
  "invalidateFact invalidate_fact default_user db id' valid_to' user_id' =
     (case or_default user_id' default_user of
        None \<Rightarrow> invalidate_fact id' valid_to' db
      | Some uid \<Rightarrow>
          if uid \<noteq> [] then
            (case find (\<lambda>r. fact_id r = id') db of
               None \<Rightarrow> (Inl (Error (''Fact '' @ id' @ '' not found'')), db)
             | Some row \<Rightarrow>
                 if user_id row \<noteq> Some uid
                 then (Inl (Error (''Fact '' @ id' @ '' not found for user '' @ uid)), db)
                 else invalidate_fact id' valid_to' db)
          else invalidate_fact id' valid_to' db)"

definition deleteFact ::
  "(string \<Rightarrow> fact_table \<Rightarrow> (error + unit) \<times> fact_table) \<Rightarrow>
     string option \<Rightarrow> fact_table \<Rightarrow> string \<Rightarrow> string option \<Rightarrow>
     (error + unit) \<times> fact_table" where
  "deleteFact delete_fact default_user db id' user_id' =
     (case or_default user_id' default_user of
        None \<Rightarrow> delete_fact id' db
      | Some uid \<Rightarrow>
          if uid \<noteq> [] then
            (case find (\<lambda>r. fact_id r = id') db of
               None \<Rightarrow> (Inl (Error (''Fact '' @ id' @ '' not found'')), db)
             | Some row \<Rightarrow>
                 if user_id row \<noteq> Some uid
                 then (Inl (Error (''Fact '' @ id' @ '' not found for user '' @ uid)), db)
                 else delete_fact id' db)
          else delete_fact id' db)"

text \<open>
  Modelled from the spec: \<^verbatim>\<open>update_fact\<close>, \<^verbatim>\<open>invalidate_fact\<close> and \<^verbatim>\<open>delete_fact\<close> of
  \<^verbatim>\<open>temporal_graph/store.ts\<close> are missing. The spec says that update mutates only
  confidence and/or metadata, that invalidate sets \<^verbatim>\<open>valid_to\<close> (default now), and that
  delete removes the fact for good. They serve as instances of the parameter above.
\<close>

definition update_fact_spec ::
  "string \<Rightarrow> real option \<Rightarrow> string option \<Rightarrow> fact_table \<Rightarrow> (error + unit) \<times> fact_table" where
  "update_fact_spec id' confidence' metadata' db =
     (Inr (),
      map (\<lambda>r. if fact_id r = id'
               then r\<lparr>confidence := (case confidence' of Some c \<Rightarrow> c | None \<Rightarrow> confidence r),
                      metadata := (case metadata' of Some m \<Rightarrow> Some m | None \<Rightarrow> metadata r)\<rparr>
               else r) db)"

definition invalidate_fact_spec ::
  "int \<Rightarrow> string \<Rightarrow> int option \<Rightarrow> fact_table \<Rightarrow> (error + unit) \<times> fact_table" where
  "invalidate_fact_spec now id' valid_to' db =
     (Inr (),
      map (\<lambda>r. if fact_id r = id'
               then r\<lparr>valid_to := Some (case valid_to' of Some t \<Rightarrow> t | None \<Rightarrow> now)\<rparr>
               else r) db)"

definition delete_fact_spec :: "string \<Rightarrow> fact_table \<Rightarrow> (error + unit) \<times> fact_table" where
  "delete_fact_spec id' db = (Inr (), filter (\<lambda>r. fact_id r \<noteq> id') db)"

section \<open>Listing memories\<close>

text \<open>
  A row of the table \<^verbatim>\<open>memories\<close>: the columns \<^verbatim>\<open>Memory.list\<close> looks at, and the
  content. The table is the list of its rows in the order in which the listing
  statements return them.
\<close>

record mem_row =
  mem_id :: string
  mem_user_id :: "string option"
  mem_content :: string
  primary_sector :: string

text \<open>
  The prepared statements \<^verbatim>\<open>q.all_mem_by_user\<close>, \<^verbatim>\<open>q.all_mem_by_sector\<close> and
  \<^verbatim>\<open>q.all_mem\<close>, each called as \<^verbatim>\<open>.all(..., limit, offset)\<close>.
\<close>

record queries =
  all_mem_by_user :: "string \<Rightarrow> nat \<Rightarrow> nat \<Rightarrow> mem_row list"
  all_mem_by_sector :: "string \<Rightarrow> nat \<Rightarrow> nat \<Rightarrow> mem_row list"
  all_mem :: "nat \<Rightarrow> nat \<Rightarrow> mem_row list"

text \<open>
  \<^verbatim>\<open>Memory.list\<close>: \<^verbatim>\<open>opts?.limit || 10\<close> (an absent or zero limit is 10),
  \<^verbatim>\<open>opts?.offset || 0\<close>, \<^verbatim>\<open>opts?.user_id || this.default_user\<close>. With a user the rows
  come from \<^verbatim>\<open>q.all_mem_by_user.all(uid, limit, offset)\<close> and a given sector filters
  them afterwards (\<^verbatim>\<open>row.primary_sector === sector\<close>); without a user a given sector
  goes into \<^verbatim>\<open>q.all_mem_by_sector.all(sector, limit, offset)\<close>.
\<close>

definition list_memories ::
  "queries \<Rightarrow> string option \<Rightarrow> string option \<Rightarrow> nat option \<Rightarrow> nat option \<Rightarrow> string option \<Rightarrow>
     mem_row list" where
  "list_memories q default_user user_id' limit' offset' sector' =
     (let limit = (case limit' of None \<Rightarrow> 10 | Some n \<Rightarrow> if n = 0 then 10 else n);
          offset = (case offset' of None \<Rightarrow> 0 | Some n \<Rightarrow> n);
          uid = or_default user_id' default_user;
          sector = sector'
      in if truthy uid then
           (let all = all_mem_by_user q (case uid of Some u \<Rightarrow> u | None \<Rightarrow> []) limit offset
            in if truthy sector
               then filter (\<lambda>row. Some (primary_sector row) = sector) all
               else all)
         else
           (if truthy sector
            then all_mem_by_sector q (case sector of Some s \<Rightarrow> s | None \<Rightarrow> []) limit offset
            else all_mem q limit offset))"

text \<open>
  Modelled from the spec: the statements themselves are in \<^verbatim>\<open>core/db.ts\<close>, which is
  missing. By their names and by the spec (\<^verbatim>\<open>list(opts?)\<close> returns a page of memory
  rows, user-scoped when a user id is supplied) each selects the rows of the user, of the
  primary sector, or all rows, and returns the page \<^verbatim>\<open>LIMIT limit OFFSET offset\<close> of
  them.
\<close>

definition page :: "nat \<Rightarrow> nat \<Rightarrow> 'a list \<Rightarrow> 'a list" where
  "page limit offset rows = take limit (drop offset rows)"

definition q_of :: "mem_row list \<Rightarrow> queries" where
  "q_of db =
     \<lparr>all_mem_by_user = (\<lambda>uid limit offset.
          page limit offset (filter (\<lambda>m. mem_user_id m = Some uid) db)),
      all_mem_by_sector = (\<lambda>sector limit offset.
          page limit offset (filter (\<lambda>m. primary_sector m = sector) db)),
      all_mem = (\<lambda>limit offset. page limit offset db)\<rparr>"

text \<open>
  A table of two memories of alice: the newer one semantic, the older one episodic.
\<close>

definition alice_memories :: "mem_row list" where
  "alice_memories =
     [\<lparr>mem_id = ''m2'', mem_user_id = Some ''alice'', mem_content = ''alice likes python'',
        primary_sector = ''semantic''\<rparr>,
      \<lparr>mem_id = ''m1'', mem_user_id = Some ''alice'', mem_content = ''alice met bob yesterday'',
        primary_sector = ''episodic''\<rparr>]"

section \<open>The unified store operation\<close>

text \<open>
  The options of \<^verbatim>\<open>Memory.store\<close> (\<^verbatim>\<open>StoreOptions\<close>); every field is optional, and
  an absent options object is the record of absent fields. Metadata is a map from keys
  to values, a value being its text.
\<close>

datatype store_type = Contextual | Factual | Both

record fact_input =
  in_subject :: string
  in_predicate :: string
  in_object :: string
  in_confidence :: "real option"
  in_valid_from :: "int option"

record store_options =
  opt_type :: "store_type option"
  opt_facts :: "fact_input list option"
  opt_tags :: "string list option"
  opt_metadata :: "(string \<rightharpoonup> string) option"
  opt_user_id :: "string option"

text \<open>
  An element of \<^verbatim>\<open>factsToInsert\<close>, the argument of \<^verbatim>\<open>batch_insert_facts\<close>.
\<close>

record fact_to_insert =
  ins_subject :: string
  ins_predicate :: string
  ins_object :: string
  ins_valid_from :: int
  ins_confidence :: real
  ins_metadata :: "string \<rightharpoonup> string"
  ins_user_id :: "string option"

text \<open>
  What \<^verbatim>\<open>store\<close> reads of the result of \<^verbatim>\<open>add_hsg_memory\<close>, and \<^verbatim>\<open>StoreResult\<close>.
  An entry of \<^verbatim>\<open>temporal\<close> has the id \<^verbatim>\<open>fact_ids[index]\<close>, which is undefined past
  the end of the returned ids.
\<close>

record hsg_memory =
  hsg_id :: string
  hsg_primary_sector :: string
  hsg_sectors :: "string list"

record temporal_entry =
  entry_id :: "string option"
  entry_subject :: string
  entry_predicate :: string
  entry_object :: string

record store_result =
  result_hsg :: "hsg_memory option"
  result_temporal :: "temporal_entry list option"

text \<open>
  The calls \<^verbatim>\<open>store\<close> makes to the two subsystems, in the order in which it makes
  them. \<^verbatim>\<open>add_hsg_memory\<close> receives the content, the tags (as JSON text in the source),
  the metadata and the user; \<^verbatim>\<open>batch_insert_facts\<close> receives the facts to insert.
\<close>

datatype call =
  Add_hsg_memory string "string list" "string \<rightharpoonup> string" "string option"
| Batch_insert_facts "fact_to_insert list"

definition type_name :: "store_type \<Rightarrow> string" where
  "type_name t = (case t of Contextual \<Rightarrow> ''contextual'' | Factual \<Rightarrow> ''factual''
                  | Both \<Rightarrow> ''both'')"

text \<open>
  \<^verbatim>\<open>Memory.store\<close>. Neither \<^verbatim>\<open>add_hsg_memory\<close> (\<^verbatim>\<open>memory/hsg.ts\<close>) nor
  \<^verbatim>\<open>batch_insert_facts\<close> (\<^verbatim>\<open>temporal_graph/store.ts\<close>) is among the sources: both
  are parameters, each returning its result or the error it throws. \<open>now\<close> is the
  reading of \<^verbatim>\<open>new Date()\<close>. The result is the outcome and the calls made.
\<close>

definition store ::
  "(string \<Rightarrow> string list \<Rightarrow> (string \<rightharpoonup> string) \<Rightarrow> string option \<Rightarrow> error + hsg_memory) \<Rightarrow>
     (fact_to_insert list \<Rightarrow> error + string list) \<Rightarrow>
     string option \<Rightarrow> int \<Rightarrow> string \<Rightarrow> store_options \<Rightarrow>
     (error + store_result) \<times> call list" where
  "store add_hsg_memory batch_insert_facts default_user now content opts =
     (let type = (case opt_type opts of None \<Rightarrow> Contextual | Some t \<Rightarrow> t);
          uid = or_default (opt_user_id opts) default_user
      in
      if type = Factual \<and> (case opt_facts opts of None \<Rightarrow> True | Some fs \<Rightarrow> fs = []) then
        (Inl (Error (''Facts array is required when type is 'factual'' @ [CHR 0x27])), [])
      else if (type = Contextual \<or> type = Both) \<and> content = [] then
        (Inl (Error (''Content is required when type is '' @ [CHR 0x27] @ type_name type
                       @ [CHR 0x27])), [])
      else
        (let (hsg_outcome, calls1) =
               (if type = Contextual \<or> type = Both then
                  (let tags = (case opt_tags opts of None \<Rightarrow> [] | Some ts \<Rightarrow> ts);
                       meta = (case opt_metadata opts of None \<Rightarrow> Map.empty | Some m \<Rightarrow> m)
                   in (map_sum id Some (add_hsg_memory content tags meta uid),
                       [Add_hsg_memory content tags meta uid]))
                else (Inr None, []))
         in case hsg_outcome of
              Inl e \<Rightarrow> (Inl e, calls1)
            | Inr hsg \<Rightarrow>
                (case (if type = Factual \<or> type = Both then opt_facts opts else None) of
                   None \<Rightarrow> (Inr \<lparr>result_hsg = hsg, result_temporal = None\<rparr>, calls1)
                 | Some facts \<Rightarrow>
                     (let meta0 = (case opt_metadata opts of None \<Rightarrow> Map.empty | Some m \<Rightarrow> m);
                          meta =
                            (case hsg of
                               None \<Rightarrow> meta0
                             | Some h \<Rightarrow>
                                 if type = Both \<and> hsg_id h \<noteq> []
                                 then meta0(''source_memory_id'' \<mapsto> hsg_id h)
                                 else meta0);
                          factsToInsert =
                            map (\<lambda>f. \<lparr>ins_subject = in_subject f,
                                      ins_predicate = in_predicate f,
                                      ins_object = in_object f,
                                      ins_valid_from =
                                        (case in_valid_from f of None \<Rightarrow> now | Some v \<Rightarrow> v),
                                      ins_confidence =
                                        (case in_confidence f of None \<Rightarrow> 1 | Some c \<Rightarrow> c),
                                      ins_metadata = meta,
                                      ins_user_id = uid\<rparr>) facts;
                          calls2 = calls1 @ [Batch_insert_facts factsToInsert]
                      in case batch_insert_facts factsToInsert of
                           Inl e \<Rightarrow> (Inl e, calls2)
                         | Inr fact_ids \<Rightarrow>
                             (Inr \<lparr>result_hsg = hsg,
                                   result_temporal = Some
                                     (map (\<lambda>(f, index).
                                             \<lparr>entry_id = (if index < length fact_ids
                                                           then Some (fact_ids ! index)
                                                           else None),
                                              entry_subject = in_subject f,
                                              entry_predicate = in_predicate f,
                                              entry_object = in_object f\<rparr>)
                                        (zip facts [0..<length facts]))\<rparr>,
                              calls2)))))"

text \<open>
  Stand-ins for the two subsystems, to run \<^verbatim>\<open>store\<close> on an example: the semantic
  store creates the memory \<^verbatim>\<open>mem-1\<close>, the temporal store numbers nothing and returns
  one id per fact.
\<close>

definition hsg_stand_in ::
  "string \<Rightarrow> string list \<Rightarrow> (string \<rightharpoonup> string) \<Rightarrow> string option \<Rightarrow> error + hsg_memory" where
  "hsg_stand_in content tags meta uid =
     Inr \<lparr>hsg_id = ''mem-1'', hsg_primary_sector = ''semantic'', hsg_sectors = [''semantic'']\<rparr>"

definition facts_stand_in :: "fact_to_insert list \<Rightarrow> error + string list" where
  "facts_stand_in fs = Inr (map (\<lambda>f. ''fact-'' @ ins_object f) fs)"

definition john_facts :: "fact_input list" where
  "john_facts =
     [\<lparr>in_subject = ''John'', in_predicate = ''works_at'', in_object = ''Acme Corp'',
        in_confidence = None, in_valid_from = None\<rparr>,
      \<lparr>in_subject = ''John'', in_predicate = ''role'', in_object = ''Software Engineer'',
        in_confidence = None, in_valid_from = None\<rparr>]"

definition store_opts :: "store_type \<Rightarrow> store_options" where
  "store_opts t =
     \<lparr>opt_type = Some t, opt_facts = Some john_facts, opt_tags = Some [''employment''],
      opt_metadata = None, opt_user_id = Some ''alice''\<rparr>"

section \<open>The pgvector store\<close>

text \<open>
  A row of the table \<^verbatim>\<open>vectors\<close>: \<^verbatim>\<open>(id, sector, user_id, v, dim)\<close>. Components are
  reals here. \<^verbatim>\<open>storeVector\<close> writes \<^verbatim>\<open>user_id || "anonymous"\<close>, so the owner is
  always a string.
\<close>

record vector_row =
  vec_id :: string
  vec_sector :: string
  vec_user_id :: string
  vec :: "real list"
  vec_dim :: nat

text \<open>
  The operator \<^verbatim>\<open><=>\<close> of pgvector is the cosine distance, one minus the cosine
  similarity.
\<close>

definition dot_product :: "real list \<Rightarrow> real list \<Rightarrow> real" where
  "dot_product a b = sum_list (map (\<lambda>(x, y). x * y) (zip a b))"

definition cosine_similarity :: "real list \<Rightarrow> real list \<Rightarrow> real" where
  "cosine_similarity a b = dot_product a b / (sqrt (dot_product a a) * sqrt (dot_product b b))"

definition cosine_distance :: "real list \<Rightarrow> real list \<Rightarrow> real" where
  "cosine_distance a b = 1 - cosine_similarity a b"

text \<open>
  The statement \<^verbatim>\<open>searchSimilar\<close> sends, with its parameters:
  \<^verbatim>\<open>select id, 1 - (v <=> $1::vector) as score from vectors where sector = $2
  [and user_id = $3] order by v <=> $1::vector limit $4\<close>. The condition on the user is
  present exactly when the user id is truthy.
\<close>

record similarity_query =
  q_vector :: "real list"
  q_sector :: string
  q_user_id :: "string option"
  q_limit :: nat

definition searchSimilar_query ::
  "string \<Rightarrow> real list \<Rightarrow> nat \<Rightarrow> string option \<Rightarrow> similarity_query" where
  "searchSimilar_query sector queryVec topK user_id' =
     (if truthy user_id'
      then \<lparr>q_vector = queryVec, q_sector = sector, q_user_id = user_id', q_limit = topK\<rparr>
      else \<lparr>q_vector = queryVec, q_sector = sector, q_user_id = None, q_limit = topK\<rparr>)"

text \<open>
  How the database answers the statement. \<open>scan\<close> yields the rows of the table in the
  order of the \<^verbatim>\<open>order by\<close>: all of them by increasing distance for an exact plan, or
  the candidates of the HNSW index for an approximate one. The conditions of the
  \<^verbatim>\<open>where\<close> clause are applied to what the scan yields, and the first \<^verbatim>\<open>limit\<close> rows
  that pass are returned with their score.
\<close>

definition all_async_similarity ::
  "(real list \<Rightarrow> vector_row list \<Rightarrow> vector_row list) \<Rightarrow> vector_row list \<Rightarrow> similarity_query \<Rightarrow>
     (string \<times> real) list" where
  "all_async_similarity scan table q =
     map (\<lambda>r. (vec_id r, 1 - cosine_distance (vec r) (q_vector q)))
       (take (q_limit q)
          (filter (\<lambda>r. vec_sector r = q_sector q
                       \<and> (case q_user_id q of None \<Rightarrow> True | Some u \<Rightarrow> vec_user_id r = u))
             (scan (q_vector q) table)))"

definition exact_scan :: "real list \<Rightarrow> vector_row list \<Rightarrow> vector_row list" where
  "exact_scan queryVec table = sort_key (\<lambda>r. cosine_distance (vec r) queryVec) table"

text \<open>
  \<^verbatim>\<open>PgVectorStore.searchSimilar\<close>: the rows of the answer as \<^verbatim>\<open>{id, score}\<close> pairs.
\<close>

definition searchSimilar ::
  "(real list \<Rightarrow> vector_row list \<Rightarrow> vector_row list) \<Rightarrow> vector_row list \<Rightarrow>
     string \<Rightarrow> real list \<Rightarrow> nat \<Rightarrow> string option \<Rightarrow> (string \<times> real) list" where
  "searchSimilar scan table sector queryVec topK user_id' =
     (let rows = all_async_similarity scan table (searchSimilar_query sector queryVec topK user_id')
      in map (\<lambda>row. (fst row, snd row)) rows)"

text \<open>
  Two vectors of one sector: alice's along the first axis, bob's along the second.
\<close>

definition two_vectors :: "vector_row list" where
  "two_vectors =
     [\<lparr>vec_id = ''b1'', vec_sector = ''semantic'', vec_user_id = ''bob'', vec = [0, 1],
        vec_dim = 2\<rparr>,
      \<lparr>vec_id = ''a1'', vec_sector = ''semantic'', vec_user_id = ''alice'', vec = [1, 0],
        vec_dim = 2\<rparr>]"

section \<open>Facts about the building blocks\<close>

lemma set_select_where:
  "set (select_where cs rows) = {r \<in> set rows. \<forall>c \<in> set cs. c r}"
  by (auto simp: select_where_def list_all_iff)

lemma set_push_if:
  "set (push_if x c) = (if truthy x then {c (the x)} else {})"
  by (cases x) (auto simp: push_if_def truthy_def)

lemma range_both_same: "active_at t r \<Longrightarrow> range_both t t r"
  by (auto simp: active_at_def range_both_def)

lemma set_query_facts_at_time:
  "set (query_facts_at_time db s p ob t mc u) =
     row_to_fact ` {r \<in> set db.
        active_at t r
        \<and> (truthy u \<longrightarrow> user_id r = u)
        \<and> (truthy s \<longrightarrow> Some (subject r) = s)
        \<and> (truthy p \<longrightarrow> Some (predicate r) = p)
        \<and> (truthy ob \<longrightarrow> Some (object r) = ob)
        \<and> (0 < mc \<longrightarrow> mc \<le> confidence r)}"
  unfolding query_facts_at_time_def Let_def set_map set_sort set_select_where
  by (rule arg_cong [where f = "(`) row_to_fact"])
     (auto simp: set_push_if truthy_def user_id_eq_def subject_eq_def predicate_eq_def
        object_eq_def confidence_ge_def split: option.splits if_splits)

lemma set_query_facts_in_range_both:
  "set (query_facts_in_range db s p (Some a) (Some b) mc u) =
     row_to_fact ` {r \<in> set db.
        range_both a b r
        \<and> (truthy u \<longrightarrow> user_id r = u)
        \<and> (truthy s \<longrightarrow> Some (subject r) = s)
        \<and> (truthy p \<longrightarrow> Some (predicate r) = p)
        \<and> (0 < mc \<longrightarrow> mc \<le> confidence r)}"
  unfolding query_facts_in_range_def Let_def set_map set_sort set_select_where
  by (rule arg_cong [where f = "(`) row_to_fact"])
     (auto simp: set_push_if truthy_def user_id_eq_def subject_eq_def predicate_eq_def
        confidence_ge_def split: option.splits if_splits)

lemma truthy_Some: "truthy (Some u) = (u \<noteq> [])"
  by (simp add: truthy_def)

lemma push_if_Some: "u \<noteq> [] \<Longrightarrow> push_if (Some u) c = [c u]"
  by (simp add: push_if_def)

lemma user_id_row_to_fact: "user_id (row_to_fact r) = user_id r"
  by (simp add: row_to_fact_def)

lemma first_of_limit_1:
  "(case take 1 xs of [] \<Rightarrow> None | r # _ \<Rightarrow> Some (g r)) =
   (case xs of [] \<Rightarrow> None | r # _ \<Rightarrow> Some (g r))"
  by (cases xs) simp_all

lemma select_where_scoped:
  "user_id_eq u \<in> set cs \<Longrightarrow> r \<in> set (select_where cs db) \<Longrightarrow> user_id r = Some u"
  by (auto simp: set_select_where user_id_eq_def)

lemma select_where_facts_of_user:
  "user_id_eq u \<in> set cs \<Longrightarrow> select_where cs db = select_where cs (facts_of_user u db)"
  unfolding select_where_def facts_of_user_def filter_filter
  by (rule filter_cong) (auto simp: list_all_iff user_id_eq_def)

lemma select_where_same_user:
  assumes "user_id_eq u \<in> set cs" and "facts_of_user u db = facts_of_user u db'"
  shows "select_where cs db = select_where cs db'"
  using select_where_facts_of_user [OF assms(1), of db]
    select_where_facts_of_user [OF assms(1), of db'] assms(2) by simp

lemma at_time_scoped:
  "u \<noteq> [] \<Longrightarrow> f \<in> set (query_facts_at_time db s p ob t mc (Some u)) \<Longrightarrow> user_id f = Some u"
  by (auto simp: set_query_facts_at_time truthy_Some user_id_row_to_fact)

lemma at_time_same:
  assumes "u \<noteq> []" "facts_of_user u db = facts_of_user u db'"
  shows "query_facts_at_time db s p ob t mc (Some u) = query_facts_at_time db' s p ob t mc (Some u)"
  unfolding query_facts_at_time_def Let_def
  by (subst select_where_same_user [OF _ assms(2)]) (simp_all add: push_if_Some assms(1))

lemma current_scoped:
  assumes "u \<noteq> []" "get_current_fact db s p (Some u) = Some f"
  shows "user_id f = Some u"
proof -
  let ?cs = "[subject_eq s, predicate_eq p, valid_to_is_null] @ push_if (Some u) user_id_eq"
  let ?rows = "sort_key (\<lambda>r. - valid_from r) (select_where ?cs db)"
  from assms(2) obtain row rest where rows: "?rows = row # rest" and f: "f = row_to_fact row"
    unfolding get_current_fact_def Let_def first_of_limit_1
    by (auto split: list.splits)
  have "row \<in> set ?rows" unfolding rows by simp
  then have "row \<in> set (select_where ?cs db)" by simp
  moreover have "user_id_eq u \<in> set ?cs" by (simp add: push_if_Some assms(1))
  ultimately have "user_id row = Some u" by (rule select_where_scoped [rotated])
  then show ?thesis by (simp add: f user_id_row_to_fact)
qed

lemma current_same:
  assumes "u \<noteq> []" "facts_of_user u db = facts_of_user u db'"
  shows "get_current_fact db s p (Some u) = get_current_fact db' s p (Some u)"
  unfolding get_current_fact_def Let_def
  by (subst select_where_same_user [OF _ assms(2)]) (simp_all add: push_if_Some assms(1))

lemma scoped_rows:
  "user_id_eq u \<in> set cs \<Longrightarrow> f \<in> row_to_fact ` set (select_where cs db) \<Longrightarrow> user_id f = Some u"
  by (auto dest: select_where_scoped simp: user_id_row_to_fact)

lemma in_range_scoped:
  assumes "u \<noteq> []" "f \<in> set (query_facts_in_range db s p a b mc (Some u))"
  shows "user_id f = Some u"
  using assms(2)
  unfolding query_facts_in_range_def Let_def set_map set_sort push_if_Some [OF assms(1)]
  by (rule scoped_rows [rotated]) simp

lemma in_range_same:
  assumes "u \<noteq> []" "facts_of_user u db = facts_of_user u db'"
  shows "query_facts_in_range db s p a b mc (Some u) = query_facts_in_range db' s p a b mc (Some u)"
  unfolding query_facts_in_range_def Let_def
  by (subst select_where_same_user [OF _ assms(2)]) (simp_all add: push_if_Some assms(1))

lemma conflicting_scoped:
  assumes "u \<noteq> []" "f \<in> set (find_conflicting_facts db now s p a (Some u))"
  shows "user_id f = Some u"
  using assms(2)
  unfolding find_conflicting_facts_def Let_def set_map set_sort push_if_Some [OF assms(1)]
  by (rule scoped_rows [rotated]) simp

lemma conflicting_same:
  assumes "u \<noteq> []" "facts_of_user u db = facts_of_user u db'"
  shows "find_conflicting_facts db now s p a (Some u) = find_conflicting_facts db' now s p a (Some u)"
  unfolding find_conflicting_facts_def Let_def
  by (subst select_where_same_user [OF _ assms(2)]) (simp_all add: push_if_Some assms(1))

lemma by_subject_scoped:
  assumes "u \<noteq> []" "f \<in> set (get_facts_by_subject db now s a h (Some u))"
  shows "user_id f = Some u"
  using assms
  by (cases h)
     (auto simp: get_facts_by_subject_def Let_def push_if_Some set_select_where user_id_eq_def
        user_id_row_to_fact)

lemma by_subject_same:
  assumes "u \<noteq> []" "facts_of_user u db = facts_of_user u db'"
  shows "get_facts_by_subject db now s a h (Some u) = get_facts_by_subject db' now s a h (Some u)"
proof -
  have *: "\<And>cs. select_where (cs @ push_if (Some u) user_id_eq) db
      = select_where (cs @ push_if (Some u) user_id_eq) db'"
    by (rule select_where_same_user [OF _ assms(2)]) (simp add: push_if_Some assms(1))
  show ?thesis unfolding get_facts_by_subject_def Let_def * ..
qed

lemma search_scoped:
  assumes "u \<noteq> []" "f \<in> set (search_facts b db now pat fld a (Some u))"
  shows "user_id f = Some u"
proof -
  let ?cs = "[field_like b fld (''%'' @ pat @ ''%''),
              active_at (case a of Some a \<Rightarrow> a | None \<Rightarrow> now)] @ [user_id_eq u]"
  let ?key = "\<lambda>r. (- confidence r, - valid_from r)"
  from assms(2) have "f \<in> row_to_fact ` set (take 100 (sort_key ?key (select_where ?cs db)))"
    unfolding search_facts_def Let_def set_map push_if_Some [OF assms(1)] .
  then have "f \<in> row_to_fact ` set (sort_key ?key (select_where ?cs db))"
    using set_take_subset by fastforce
  then have "f \<in> row_to_fact ` set (select_where ?cs db)" by simp
  then show ?thesis by (rule scoped_rows [rotated]) simp
qed

lemma search_same:
  assumes "u \<noteq> []" "facts_of_user u db = facts_of_user u db'"
  shows "search_facts b db now pat fld a (Some u) = search_facts b db' now pat fld a (Some u)"
proof -
  have *: "\<And>cs. select_where (cs @ push_if (Some u) user_id_eq) db
      = select_where (cs @ push_if (Some u) user_id_eq) db'"
    by (rule select_where_same_user [OF _ assms(2)]) (simp add: push_if_Some assms(1))
  show ?thesis unfolding search_facts_def Let_def * ..
qed

lemma sort_key_first:
  assumes "sort_key f xs = x # rest"
  shows "x \<in> set xs \<and> (\<forall>y \<in> set xs. f x \<le> f y)"
proof -
  have "sorted (map f (sort_key f xs))" by (rule sorted_sort_key)
  then have "\<forall>y \<in> set rest. f x \<le> f y" by (simp add: assms)
  moreover have "set xs = set (x # rest)" using assms set_sort [of f xs] by simp
  ultimately show ?thesis by auto
qed

lemma sql_like_percent: "sql_like b ''%'' s"
  by (induction s) simp_all

lemma sql_like_leading_percent:
  "sql_like b (CHR ''%'' # ps) s \<longleftrightarrow> (\<exists>pre post. s = pre @ post \<and> sql_like b ps post)"
proof (induction s)
  case Nil
  then show ?case by simp
next
  case (Cons c cs)
  have "sql_like b (CHR ''%'' # ps) (c # cs) \<longleftrightarrow>
          sql_like b ps (c # cs) \<or> sql_like b (CHR ''%'' # ps) cs"
    by simp
  also have "\<dots> \<longleftrightarrow> sql_like b ps (c # cs) \<or> (\<exists>pre post. cs = pre @ post \<and> sql_like b ps post)"
    by (simp only: Cons.IH)
  also have "\<dots> \<longleftrightarrow> (\<exists>pre post. c # cs = pre @ post \<and> sql_like b ps post)"
  proof
    assume "sql_like b ps (c # cs) \<or> (\<exists>pre post. cs = pre @ post \<and> sql_like b ps post)"
    then show "\<exists>pre post. c # cs = pre @ post \<and> sql_like b ps post"
    proof
      assume "sql_like b ps (c # cs)"
      then have "c # cs = [] @ (c # cs) \<and> sql_like b ps (c # cs)" by simp
      then show ?thesis by blast
    next
      assume "\<exists>pre post. cs = pre @ post \<and> sql_like b ps post"
      then obtain pre post where "cs = pre @ post" "sql_like b ps post" by blast
      then have "c # cs = (c # pre) @ post \<and> sql_like b ps post" by simp
      then show ?thesis by blast
    qed
  next
    assume "\<exists>pre post. c # cs = pre @ post \<and> sql_like b ps post"
    then obtain pre post where eq: "c # cs = pre @ post" and m: "sql_like b ps post" by blast
    show "sql_like b ps (c # cs) \<or> (\<exists>pre post. cs = pre @ post \<and> sql_like b ps post)"
    proof (cases pre)
      case Nil
      with eq m show ?thesis by simp
    next
      case (Cons x pre')
      with eq have "cs = pre' @ post" by simp
      with m show ?thesis by blast
    qed
  qed
  finally show ?case .
qed

lemma sql_like_plain_prefix:
  "plain_pattern b ps \<Longrightarrow>
     sql_like b (ps @ ''%'') s \<longleftrightarrow>
       (\<exists>mid post. s = mid @ post \<and> list_all2 (char_like b) ps mid)"
proof (induction ps arbitrary: s)
  case Nil
  have "sql_like b ''%'' s" by (rule sql_like_percent)
  moreover have "\<exists>mid post. s = mid @ post \<and> list_all2 (char_like b) [] mid" by simp
  ultimately show ?case unfolding append_Nil by blast
next
  case (Cons p ps)
  from Cons.prems have plain: "plain_pattern b ps"
    and p: "p \<noteq> CHR ''%''" "p \<noteq> CHR ''_''" "\<not> (b = Postgres \<and> p = CHR 0x5C)"
    by (auto simp: plain_pattern_def)
  show ?case
  proof (cases s)
    case Nil
    with p show ?thesis by auto
  next
    case (Cons c cs)
    have "sql_like b ((p # ps) @ ''%'') (c # cs) \<longleftrightarrow>
            char_like b p c \<and> sql_like b (ps @ ''%'') cs"
      using p by auto
    also have "\<dots> \<longleftrightarrow> char_like b p c \<and>
        (\<exists>mid post. cs = mid @ post \<and> list_all2 (char_like b) ps mid)"
      by (simp only: Cons.IH [OF plain])
    also have "\<dots> \<longleftrightarrow> (\<exists>mid post. c # cs = mid @ post \<and> list_all2 (char_like b) (p # ps) mid)"
      by (auto simp: list_all2_Cons1 Cons_eq_append_conv)
    finally show ?thesis by (simp only: Cons)
  qed
qed

lemma sql_like_plain:
  assumes "plain_pattern b pat"
  shows "sql_like b (''%'' @ pat @ ''%'') s \<longleftrightarrow>
           (\<exists>pre mid post. s = pre @ mid @ post \<and> list_all2 (char_like b) pat mid)"
proof -
  have "sql_like b (''%'' @ pat @ ''%'') s \<longleftrightarrow>
          (\<exists>pre rest. s = pre @ rest \<and> sql_like b (pat @ ''%'') rest)"
    using sql_like_leading_percent [of b "pat @ ''%''" s] by simp
  also have "\<dots> \<longleftrightarrow> (\<exists>pre rest. s = pre @ rest \<and>
        (\<exists>mid post. rest = mid @ post \<and> list_all2 (char_like b) pat mid))"
    by (simp only: sql_like_plain_prefix [OF assms])
  also have "\<dots> \<longleftrightarrow> (\<exists>pre mid post. s = pre @ mid @ post \<and> list_all2 (char_like b) pat mid)"
    by blast
  finally show ?thesis .
qed

lemma list_all2_char_like_Postgres: "list_all2 (char_like Postgres) ps mid \<longleftrightarrow> mid = ps"
proof -
  have "char_like Postgres = (=)" by (simp add: fun_eq_iff char_like_def)
  then show ?thesis by (auto simp: list_all2_eq [symmetric])
qed

lemma list_all2_char_like_Sqlite:
  "list_all2 (char_like Sqlite) ps mid \<longleftrightarrow> map ascii_lower mid = map ascii_lower ps"
proof (induction ps arbitrary: mid)
  case Nil then show ?case by simp
next
  case (Cons p ps) then show ?case
    by (cases mid) (auto simp: char_like_def)
qed

lemma ranks_no_lower_key:
  "ranks_no_lower (row_to_fact x) (row_to_fact y) \<longleftrightarrow>
     (- confidence x, - valid_from x) \<le> (- confidence y, - valid_from y)"
  by (auto simp: ranks_no_lower_def row_to_fact_def)

lemma sorted_wrt_take_drop:
  assumes "sorted_wrt R xs" "x \<in> set (take n xs)" "y \<in> set (drop n xs)"
  shows "R x y"
proof -
  have "sorted_wrt R (take n xs @ drop n xs)" using assms(1) by simp
  then show ?thesis using assms(2,3) unfolding sorted_wrt_append by blast
qed

lemma limit_of_sorted:
  fixes key :: "'a \<Rightarrow> 'k::linorder"
  assumes "r \<in> set xs"
  shows "r \<in> set (take n (sort_key key xs))
         \<or> (length (take n (sort_key key xs)) = n
             \<and> (\<forall>g \<in> set (take n (sort_key key xs)). key g \<le> key r))"
proof (cases "r \<in> set (take n (sort_key key xs))")
  case True
  then show ?thesis by simp
next
  case False
  let ?ys = "sort_key key xs"
  have "r \<in> set ?ys" using assms by simp
  then have "r \<in> set (take n ?ys) \<union> set (drop n ?ys)"
    using set_append [of "take n ?ys" "drop n ?ys"] by simp
  with False have d: "r \<in> set (drop n ?ys)" by blast
  then have "drop n ?ys \<noteq> []" by auto
  then have len: "length (take n ?ys) = n" by simp
  have srt: "sorted_wrt (\<lambda>x y. key x \<le> key y) ?ys"
    using sorted_sort_key [of key xs] by (simp add: sorted_map)
  have "\<forall>g \<in> set (take n ?ys). key g \<le> key r"
  proof
    fix g assume "g \<in> set (take n ?ys)"
    from sorted_wrt_take_drop [OF srt this d] show "key g \<le> key r" .
  qed
  with len show ?thesis by blast
qed

section \<open>As-of results lie inside the range results\<close>

text \<open>
  Claim C5. For every fact table, every instant \<open>t\<close> and every common choice of subject,
  predicate, user scope and confidence threshold, every fact that
  \<^verbatim>\<open>query_facts_at_time\<close> returns at \<open>t\<close> is also returned by
  \<^verbatim>\<open>query_facts_in_range\<close> with \<open>from = t\<close> and \<open>to = t\<close>. The as-of query may in
  addition narrow by an object pattern; the inclusion holds for every such pattern, the
  omitted one among them.
\<close>

theorem as_of_subset_in_range:
  "set (query_facts_at_time db s p ob t mc u)
     \<subseteq> set (query_facts_in_range db s p (Some t) (Some t) mc u)"
  unfolding set_query_facts_at_time set_query_facts_in_range_both
  by (rule image_mono) (auto intro: range_both_same)

theorem as_of_subset_in_range_witness:
  "query_facts_at_time S2_table (Some ''alice'') (Some ''works_at'') None 1688169600000 0
      (Some ''alice'') = [S2_acme]
   \<and> set (query_facts_at_time S2_table (Some ''alice'') (Some ''works_at'') None
          1688169600000 0 (Some ''alice''))
       \<subseteq> set (query_facts_in_range S2_table (Some ''alice'') (Some ''works_at'')
          (Some 1688169600000) (Some 1688169600000) 0 (Some ''alice''))"
proof -
  have "query_facts_at_time S2_table (Some ''alice'') (Some ''works_at'') None
      1688169600000 0 (Some ''alice'') = [S2_acme]"
    by code_simp
  with as_of_subset_in_range [of S2_table "Some ''alice''" "Some ''works_at''" None
      1688169600000 0 "Some ''alice''"]
  show ?thesis by simp
qed

section \<open>User scoping of the temporal queries\<close>

text \<open>
  Claim C2. Let a temporal query be invoked with a user id \<open>u\<close> (a non-empty string:
  the queries test the parameter with \<^verbatim>\<open>if (user_id)\<close>, so the empty string counts
  as no user id, as it does throughout the API). Then every fact in the result of
  \<^verbatim>\<open>query_facts_at_time\<close>, \<^verbatim>\<open>get_current_fact\<close>, \<^verbatim>\<open>query_facts_in_range\<close>,
  \<^verbatim>\<open>find_conflicting_facts\<close>, \<^verbatim>\<open>get_facts_by_subject\<close> and \<^verbatim>\<open>search_facts\<close> has
  \<^verbatim>\<open>user_id = u\<close>; and two tables that hold the same rows of \<open>u\<close>, whatever rows of
  other users they hold, give identical results for each of the six queries.
\<close>

theorem user_scoped_queries_isolated:
  assumes "u \<noteq> []"
  shows "(\<forall>f \<in> set (query_facts_at_time db so po oo t mc (Some u)). user_id f = Some u)
    \<and> (\<forall>f. get_current_fact db s p (Some u) = Some f \<longrightarrow> user_id f = Some u)
    \<and> (\<forall>f \<in> set (query_facts_in_range db so po a b mc (Some u)). user_id f = Some u)
    \<and> (\<forall>f \<in> set (find_conflicting_facts db now s p at' (Some u)). user_id f = Some u)
    \<and> (\<forall>f \<in> set (get_facts_by_subject db now s at' h (Some u)). user_id f = Some u)
    \<and> (\<forall>f \<in> set (search_facts bk db now pat fld at' (Some u)). user_id f = Some u)
    \<and> (facts_of_user u db = facts_of_user u db' \<longrightarrow>
          query_facts_at_time db so po oo t mc (Some u)
            = query_facts_at_time db' so po oo t mc (Some u)
        \<and> get_current_fact db s p (Some u) = get_current_fact db' s p (Some u)
        \<and> query_facts_in_range db so po a b mc (Some u)
            = query_facts_in_range db' so po a b mc (Some u)
        \<and> find_conflicting_facts db now s p at' (Some u)
            = find_conflicting_facts db' now s p at' (Some u)
        \<and> get_facts_by_subject db now s at' h (Some u)
            = get_facts_by_subject db' now s at' h (Some u)
        \<and> search_facts bk db now pat fld at' (Some u)
            = search_facts bk db' now pat fld at' (Some u))"
proof (intro conjI ballI allI impI)
  fix f assume "f \<in> set (query_facts_at_time db so po oo t mc (Some u))"
  then show "user_id f = Some u" by (rule at_time_scoped [OF assms])
next
  fix f assume "get_current_fact db s p (Some u) = Some f"
  then show "user_id f = Some u" by (rule current_scoped [OF assms])
next
  fix f assume "f \<in> set (query_facts_in_range db so po a b mc (Some u))"
  then show "user_id f = Some u" by (rule in_range_scoped [OF assms])
next
  fix f assume "f \<in> set (find_conflicting_facts db now s p at' (Some u))"
  then show "user_id f = Some u" by (rule conflicting_scoped [OF assms])
next
  fix f assume "f \<in> set (get_facts_by_subject db now s at' h (Some u))"
  then show "user_id f = Some u" by (rule by_subject_scoped [OF assms])
next
  fix f assume "f \<in> set (search_facts bk db now pat fld at' (Some u))"
  then show "user_id f = Some u" by (rule search_scoped [OF assms])
next
  assume same: "facts_of_user u db = facts_of_user u db'"
  show "query_facts_at_time db so po oo t mc (Some u)
          = query_facts_at_time db' so po oo t mc (Some u)"
    by (rule at_time_same [OF assms same])
  show "get_current_fact db s p (Some u) = get_current_fact db' s p (Some u)"
    by (rule current_same [OF assms same])
  show "query_facts_in_range db so po a b mc (Some u)
          = query_facts_in_range db' so po a b mc (Some u)"
    by (rule in_range_same [OF assms same])
  show "find_conflicting_facts db now s p at' (Some u)
          = find_conflicting_facts db' now s p at' (Some u)"
    by (rule conflicting_same [OF assms same])
  show "get_facts_by_subject db now s at' h (Some u)
          = get_facts_by_subject db' now s at' h (Some u)"
    by (rule by_subject_same [OF assms same])
  show "search_facts bk db now pat fld at' (Some u)
          = search_facts bk db' now pat fld at' (Some u)"
    by (rule search_same [OF assms same])
qed


theorem user_scoped_queries_isolated_witness:
  "''alice'' \<noteq> []
   \<and> facts_of_user ''alice'' (bob_acme # S2_table) = facts_of_user ''alice'' S2_table
   \<and> map user_id (search_facts Postgres (bob_acme # S2_table) 0 ''Ac'' Object
                     (Some 1717200000000) (Some ''alice'')) = [Some ''alice'']
   \<and> search_facts Postgres (bob_acme # S2_table) 0 ''Ac'' Object (Some 1717200000000)
        (Some ''alice'') = [S2_acme]
   \<and> search_facts Postgres S2_table 0 ''Ac'' Object (Some 1717200000000) (Some ''alice'')
        = [S2_acme]"
proof -
  have u: "''alice'' \<noteq> []" by simp
  have same: "facts_of_user ''alice'' (bob_acme # S2_table) = facts_of_user ''alice'' S2_table"
    by code_simp
  have val: "search_facts Postgres S2_table 0 ''Ac'' Object (Some 1717200000000)
               (Some ''alice'') = [S2_acme]"
    by code_simp
  note iso = user_scoped_queries_isolated [OF u, where db = "bob_acme # S2_table"
      and db' = S2_table and bk = Postgres and now = 0 and pat = "''Ac''" and fld = Object
      and at' = "Some 1717200000000"]
  have own: "user_id S2_acme = Some ''alice''" by code_simp
  from iso same val u own show ?thesis by simp
qed

section \<open>The as-of query\<close>

text \<open>
  Claim C1, as the code has it. \<^verbatim>\<open>query_facts_at_time\<close> returns (through the row
  mapping) exactly the stored facts \<open>F\<close> with \<open>valid_from F \<le> t \<le> valid_to F\<close>, a null
  \<^verbatim>\<open>valid_to\<close> acting as \<open>+\<infinity>\<close>: the upper bound is inclusive, since the condition
  is \<^verbatim>\<open>valid_to >= ?\<close>. The fact must also match every subject, predicate and object
  pattern that is given (an omitted or empty pattern is a wildcard), the user scope when
  one is given, and the confidence threshold when it is positive.
\<close>

theorem query_facts_at_time_returns:
  "set (query_facts_at_time db s p ob t mc u) =
     row_to_fact ` {F \<in> set db.
        valid_from F \<le> t
        \<and> (case valid_to F of None \<Rightarrow> True | Some vt \<Rightarrow> t \<le> vt)
        \<and> (truthy u \<longrightarrow> user_id F = u)
        \<and> (truthy s \<longrightarrow> Some (subject F) = s)
        \<and> (truthy p \<longrightarrow> Some (predicate F) = p)
        \<and> (truthy ob \<longrightarrow> Some (object F) = ob)
        \<and> (0 < mc \<longrightarrow> mc \<le> confidence F)}"
  unfolding set_query_facts_at_time active_at_def by (simp add: conj_assoc)

theorem query_facts_at_time_returns_witness:
  "query_facts_at_time S2_table (Some ''alice'') (Some ''works_at'') None 1688169600000 0
      (Some ''alice'') = [S2_acme]
   \<and> {S2_acme} = row_to_fact ` {F \<in> set S2_table.
        valid_from F \<le> 1688169600000
        \<and> (case valid_to F of None \<Rightarrow> True | Some vt \<Rightarrow> 1688169600000 \<le> vt)
        \<and> (truthy (Some ''alice'') \<longrightarrow> user_id F = Some ''alice'')
        \<and> (truthy (Some ''alice'') \<longrightarrow> Some (subject F) = Some ''alice'')
        \<and> (truthy (Some ''works_at'') \<longrightarrow> Some (predicate F) = Some ''works_at'')
        \<and> (truthy None \<longrightarrow> Some (object F) = None)
        \<and> ((0::real) < 0 \<longrightarrow> 0 \<le> confidence F)}"
proof -
  have val: "query_facts_at_time S2_table (Some ''alice'') (Some ''works_at'') None
      1688169600000 0 (Some ''alice'') = [S2_acme]"
    by code_simp
  from query_facts_at_time_returns [of S2_table "Some ''alice''" "Some ''works_at''" None
      1688169600000 0 "Some ''alice''"] val
  show ?thesis by simp
qed

text \<open>
  The claim as stated excludes a fact whose \<^verbatim>\<open>valid_to\<close> equals \<open>t\<close>. In the
  supersession table the Acme fact is closed at 2024-06-01, and the query at that very
  instant returns it after the Globex fact.
\<close>

theorem query_facts_at_time_closing_instant:
  "query_facts_at_time S2_table (Some ''alice'') (Some ''works_at'') None 1717200000000 0
      (Some ''alice'') = [S2_globex, S2_acme]
   \<and> valid_to S2_acme = Some 1717200000000"
  by code_simp

section \<open>The range query with a lower bound only\<close>

text \<open>
  Claim C4 at the failing input. The Globex fact is open from 2024-06-01 on, so its
  validity interval overlaps every range that starts later. With both bounds given the
  range query returns it; with the lower bound alone (the upper bound unbounded) the
  condition is only \<^verbatim>\<open>valid_from >= from\<close> and the fact is not returned.
\<close>

theorem query_facts_in_range_from_only:
  "query_facts_in_range [S2_globex] None None (Some 1717200000001) None 0 None = []
   \<and> query_facts_in_range [S2_globex] None None (Some 1717200000001) (Some 1717200000002) 0 None
       = [S2_globex]"
  by code_simp

section \<open>The current fact\<close>

text \<open>
  Claim C6, as the code has it. \<^verbatim>\<open>get_current_fact\<close> returns null exactly when no
  stored fact has the subject and the predicate, a null \<^verbatim>\<open>valid_to\<close> and (under a
  user scope) the user; otherwise it returns such a fact with the latest
  \<^verbatim>\<open>valid_from\<close> among them. No clock is read and \<^verbatim>\<open>valid_from\<close> is compared with
  no instant.
\<close>

theorem get_current_fact_latest_open:
  "(get_current_fact db s p u = None \<longleftrightarrow>
      \<not> (\<exists>r \<in> set db. subject r = s \<and> predicate r = p \<and> valid_to r = None
            \<and> (truthy u \<longrightarrow> user_id r = u)))
   \<and> (\<forall>f. get_current_fact db s p u = Some f \<longrightarrow>
        (\<exists>r \<in> set db. f = row_to_fact r
            \<and> subject r = s \<and> predicate r = p \<and> valid_to r = None
            \<and> (truthy u \<longrightarrow> user_id r = u)
            \<and> (\<forall>r' \<in> set db. subject r' = s \<and> predicate r' = p \<and> valid_to r' = None
                  \<and> (truthy u \<longrightarrow> user_id r' = u) \<longrightarrow> valid_from r' \<le> valid_from r)))"
proof -
  let ?cs = "[subject_eq s, predicate_eq p, valid_to_is_null] @ push_if u user_id_eq"
  let ?open = "\<lambda>r. subject r = s \<and> predicate r = p \<and> valid_to r = None
                 \<and> (truthy u \<longrightarrow> user_id r = u)"
  let ?rows = "sort_key (\<lambda>r. - valid_from r) (select_where ?cs db)"
  have sel: "set (select_where ?cs db) = {r \<in> set db. ?open r}"
    unfolding set_select_where
    by (auto simp: set_push_if subject_eq_def predicate_eq_def valid_to_is_null_def
          user_id_eq_def truthy_def split: option.splits if_splits)
  have cur: "get_current_fact db s p u = (case ?rows of [] \<Rightarrow> None | r # _ \<Rightarrow> Some (row_to_fact r))"
    unfolding get_current_fact_def Let_def first_of_limit_1 ..
  show ?thesis
  proof (cases ?rows)
    case Nil
    then have "set (select_where ?cs db) = {}" using set_sort [of "\<lambda>r. - valid_from r" "select_where ?cs db"] by simp
    with sel have "{r \<in> set db. ?open r} = {}" by simp
    then have "\<not> (\<exists>r \<in> set db. ?open r)" by simp
    moreover have "get_current_fact db s p u = None" by (simp only: cur Nil list.case)
    ultimately show ?thesis by simp
  next
    case (Cons r rest)
    from sort_key_first [OF Cons] sel
    have r: "r \<in> set db" "?open r" and least: "\<forall>r' \<in> set db. ?open r' \<longrightarrow> valid_from r' \<le> valid_from r"
      by auto
    have "get_current_fact db s p u = Some (row_to_fact r)" by (simp only: cur Cons list.case)
    with r least show ?thesis by auto
  qed
qed

theorem get_current_fact_latest_open_witness:
  "get_current_fact S2_table ''alice'' ''works_at'' (Some ''alice'') = Some S2_globex
   \<and> (\<exists>r \<in> set S2_table. S2_globex = row_to_fact r
         \<and> subject r = ''alice'' \<and> predicate r = ''works_at'' \<and> valid_to r = None)"
proof -
  have "get_current_fact S2_table ''alice'' ''works_at'' (Some ''alice'') = Some S2_globex"
    by code_simp
  with get_current_fact_latest_open [of S2_table "''alice''" "''works_at''" "Some ''alice''"]
  show ?thesis by blast
qed

text \<open>
  The claim as stated requires \<open>valid_from \<le> now\<close>. At 2023-07-01 (1688169600000 ms)
  the Globex fact, valid from 2024-06-01, lies in the future, and it is the current fact.
\<close>

theorem get_current_fact_future:
  "get_current_fact S2_table ''alice'' ''works_at'' (Some ''alice'') = Some S2_globex
   \<and> (1688169600000::int) < valid_from S2_globex"
  by code_simp

section \<open>Searching facts by pattern\<close>

text \<open>
  Claim C7, as the code has it. \<^verbatim>\<open>search_facts\<close> returns at most 100 facts, ordered
  by confidence descending and then \<^verbatim>\<open>valid_from\<close> descending. Each comes from a row
  whose chosen field matches the pattern \<^verbatim>\<open>%pattern%\<close> under the backend's
  \<^verbatim>\<open>LIKE\<close>, that is active at the instant (\<open>valid_from \<le> t \<le> valid_to\<close>, or open) and
  that belongs to the user when a user id is given. Every such row is returned unless 100
  facts ranked no lower are. When the pattern holds none of \<^verbatim>\<open>%\<close>, \<^verbatim>\<open>_\<close> (and, on
  PostgreSQL, no backslash), matching is containment of the pattern as a substring: exact
  on PostgreSQL, up to ASCII case on SQLite.
\<close>

theorem search_facts_like:
  "length (search_facts b db now pat fld at' u) \<le> 100
   \<and> sorted_wrt ranks_no_lower (search_facts b db now pat fld at' u)
   \<and> set (search_facts b db now pat fld at' u)
       \<subseteq> row_to_fact ` {r \<in> set db.
            field_like b fld (''%'' @ pat @ ''%'') r
            \<and> active_at (case at' of Some a \<Rightarrow> a | None \<Rightarrow> now) r
            \<and> (truthy u \<longrightarrow> user_id r = u)}
   \<and> (\<forall>r \<in> set db.
          field_like b fld (''%'' @ pat @ ''%'') r
          \<and> active_at (case at' of Some a \<Rightarrow> a | None \<Rightarrow> now) r
          \<and> (truthy u \<longrightarrow> user_id r = u) \<longrightarrow>
          row_to_fact r \<in> set (search_facts b db now pat fld at' u)
          \<or> (length (search_facts b db now pat fld at' u) = 100
              \<and> (\<forall>g \<in> set (search_facts b db now pat fld at' u).
                    ranks_no_lower g (row_to_fact r))))
   \<and> (plain_pattern b pat \<longrightarrow>
        (\<forall>r. field_like b fld (''%'' @ pat @ ''%'') r \<longleftrightarrow>
           (\<exists>pre mid post. column fld r = pre @ mid @ post
              \<and> (case b of Postgres \<Rightarrow> mid = pat
                  | Sqlite \<Rightarrow> map ascii_lower mid = map ascii_lower pat))))"
proof -
  let ?ts = "case at' of Some a \<Rightarrow> a | None \<Rightarrow> now"
  let ?cs = "[field_like b fld (''%'' @ pat @ ''%''), active_at ?ts] @ push_if u user_id_eq"
  let ?key = "\<lambda>r. (- confidence r, - valid_from r)"
  let ?M = "\<lambda>r. field_like b fld (''%'' @ pat @ ''%'') r \<and> active_at ?ts r
               \<and> (truthy u \<longrightarrow> user_id r = u)"
  let ?rows = "take 100 (sort_key ?key (select_where ?cs db))"
  have res: "search_facts b db now pat fld at' u = map row_to_fact ?rows"
    unfolding search_facts_def Let_def ..
  have sel: "set (select_where ?cs db) = {r \<in> set db. ?M r}"
    unfolding set_select_where
    by (auto simp: set_push_if user_id_eq_def truthy_def split: option.splits if_splits)
  have len: "length (search_facts b db now pat fld at' u) \<le> 100"
    unfolding res by simp
  have "sorted_wrt (\<lambda>x y. ?key x \<le> ?key y) (sort_key ?key (select_where ?cs db))"
    using sorted_sort_key [of ?key "select_where ?cs db"] by (simp add: sorted_map)
  then have "sorted_wrt (\<lambda>x y. ?key x \<le> ?key y) ?rows"
    by (rule sorted_wrt_take)
  then have srt: "sorted_wrt ranks_no_lower (search_facts b db now pat fld at' u)"
    unfolding res sorted_wrt_map ranks_no_lower_key .
  have "set ?rows \<subseteq> set (select_where ?cs db)"
    using set_take_subset [of 100 "sort_key ?key (select_where ?cs db)"] by simp
  then have sub: "set (search_facts b db now pat fld at' u) \<subseteq> row_to_fact ` {r \<in> set db. ?M r}"
    unfolding res set_map sel by (rule image_mono)
  have cap: "\<forall>r \<in> set db. ?M r \<longrightarrow>
      row_to_fact r \<in> set (search_facts b db now pat fld at' u)
      \<or> (length (search_facts b db now pat fld at' u) = 100
          \<and> (\<forall>g \<in> set (search_facts b db now pat fld at' u). ranks_no_lower g (row_to_fact r)))"
  proof (intro ballI impI)
    fix r assume "r \<in> set db" and "?M r"
    then have "r \<in> set (select_where ?cs db)" unfolding sel by simp
    from limit_of_sorted [OF this, of 100 ?key]
    show "row_to_fact r \<in> set (search_facts b db now pat fld at' u)
      \<or> (length (search_facts b db now pat fld at' u) = 100
          \<and> (\<forall>g \<in> set (search_facts b db now pat fld at' u). ranks_no_lower g (row_to_fact r)))"
      unfolding res set_map length_map by (auto simp: ranks_no_lower_key)
  qed
  have lit: "plain_pattern b pat \<longrightarrow>
        (\<forall>r. field_like b fld (''%'' @ pat @ ''%'') r \<longleftrightarrow>
           (\<exists>pre mid post. column fld r = pre @ mid @ post
              \<and> (case b of Postgres \<Rightarrow> mid = pat
                  | Sqlite \<Rightarrow> map ascii_lower mid = map ascii_lower pat)))"
  proof (intro impI allI)
    fix r assume plain: "plain_pattern b pat"
    show "field_like b fld (''%'' @ pat @ ''%'') r \<longleftrightarrow>
           (\<exists>pre mid post. column fld r = pre @ mid @ post
              \<and> (case b of Postgres \<Rightarrow> mid = pat
                  | Sqlite \<Rightarrow> map ascii_lower mid = map ascii_lower pat))"
      unfolding field_like_def sql_like_plain [OF plain]
      by (cases b) (simp_all add: list_all2_char_like_Postgres list_all2_char_like_Sqlite)
  qed
  from len srt sub cap lit show ?thesis by blast
qed

theorem search_facts_like_witness:
  "plain_pattern Postgres ''Ac''
   \<and> search_facts Postgres (bob_acme # S2_table) 0 ''Ac'' Object (Some 1717200000000)
        (Some ''alice'') = [S2_acme]
   \<and> length (search_facts Postgres (bob_acme # S2_table) 0 ''Ac'' Object
        (Some 1717200000000) (Some ''alice'')) \<le> 100
   \<and> (\<exists>pre mid post. column Object S2_acme = pre @ mid @ post \<and> mid = ''Ac'')"
proof -
  have plain: "plain_pattern Postgres ''Ac''" by (simp add: plain_pattern_def)
  have val: "search_facts Postgres (bob_acme # S2_table) 0 ''Ac'' Object (Some 1717200000000)
        (Some ''alice'') = [S2_acme]"
    by code_simp
  have fl: "field_like Postgres Object (''%'' @ ''Ac'' @ ''%'') S2_acme" by code_simp
  from search_facts_like [of Postgres "bob_acme # S2_table" 0 "''Ac''" Object
      "Some 1717200000000" "Some ''alice''"] plain
  have len: "length (search_facts Postgres (bob_acme # S2_table) 0 ''Ac'' Object
        (Some 1717200000000) (Some ''alice'')) \<le> 100"
    and lit: "\<forall>r. field_like Postgres Object (''%'' @ ''Ac'' @ ''%'') r \<longleftrightarrow>
           (\<exists>pre mid post. column Object r = pre @ mid @ post \<and> mid = ''Ac'')"
    by simp_all
  from lit fl have "\<exists>pre mid post. column Object S2_acme = pre @ mid @ post \<and> mid = ''Ac''"
    by blast
  with plain val len show ?thesis by blast
qed

text \<open>
  The claim as stated gives pattern characters no special meaning and makes the match
  case-sensitive. On PostgreSQL the pattern \<^verbatim>\<open>A_me\<close> finds the object \<^verbatim>\<open>Acme\<close>, which
  does not contain it; on SQLite the pattern \<^verbatim>\<open>ac\<close> finds \<^verbatim>\<open>Acme\<close>.
\<close>

theorem search_facts_wildcards:
  "search_facts Postgres S2_table 0 ''A_me'' Object (Some 1717200000000) (Some ''alice'')
      = [S2_acme]
   \<and> \<not> (\<exists>pre post. object S2_acme = pre @ ''A_me'' @ post)
   \<and> search_facts Sqlite S2_table 0 ''ac'' Object (Some 1717200000000) (Some ''alice'')
      = [S2_acme]
   \<and> \<not> (\<exists>pre post. object S2_acme = pre @ ''ac'' @ post)"
proof -
  have a: "search_facts Postgres S2_table 0 ''A_me'' Object (Some 1717200000000)
      (Some ''alice'') = [S2_acme]"
    by code_simp
  have b: "search_facts Sqlite S2_table 0 ''ac'' Object (Some 1717200000000)
      (Some ''alice'') = [S2_acme]"
    by code_simp
  have ob: "object S2_acme = ''Acme''" by (simp add: S2_acme_def)
  have c: "\<not> (\<exists>pre post. object S2_acme = pre @ ''A_me'' @ post)"
  proof
    assume "\<exists>pre post. object S2_acme = pre @ ''A_me'' @ post"
    then obtain pre post where "''Acme'' = pre @ ''A_me'' @ post" unfolding ob by blast
    then have "set ''Acme'' = set (pre @ ''A_me'' @ post)" by simp
    then have "CHR ''_'' \<in> set ''Acme''" by simp
    then show False by simp
  qed
  have d: "\<not> (\<exists>pre post. object S2_acme = pre @ ''ac'' @ post)"
  proof
    assume "\<exists>pre post. object S2_acme = pre @ ''ac'' @ post"
    then obtain pre post where "''Acme'' = pre @ ''ac'' @ post" unfolding ob by blast
    then have "set ''Acme'' = set (pre @ ''ac'' @ post)" by simp
    then have "CHR ''a'' \<in> set ''Acme''" by simp
    then show False by simp
  qed
  from a b c d show ?thesis by simp
qed

section \<open>Mutations under a foreign user scope\<close>

text \<open>
  Claim C3, as the code has it. Let \<^verbatim>\<open>updateFact\<close>, \<^verbatim>\<open>invalidateFact\<close> or
  \<^verbatim>\<open>deleteFact\<close> be called under a user scope \<open>uid\<close> (given in the call or as the
  default user). If no fact has the id, the operation fails with the message
  \<^verbatim>\<open>Fact <id> not found\<close> and the table is unchanged. If the fact exists and is owned
  by someone else, the operation fails with the message
  \<^verbatim>\<open>Fact <id> not found for user <uid>\<close> and the table is unchanged. The two messages
  are never equal, whatever the store operation is.
\<close>

theorem scoped_mutations_reject:
  assumes "or_default user_id' default_user = Some uid" and "uid \<noteq> []"
  shows
   "(find (\<lambda>r. fact_id r = id') db = None \<longrightarrow>
       updateFact update_fact default_user db id' c m user_id'
         = (Inl (Error (''Fact '' @ id' @ '' not found'')), db)
     \<and> invalidateFact invalidate_fact default_user db id' vt user_id'
         = (Inl (Error (''Fact '' @ id' @ '' not found'')), db)
     \<and> deleteFact delete_fact default_user db id' user_id'
         = (Inl (Error (''Fact '' @ id' @ '' not found'')), db))
    \<and> (\<forall>row. find (\<lambda>r. fact_id r = id') db = Some row \<and> user_id row \<noteq> Some uid \<longrightarrow>
       updateFact update_fact default_user db id' c m user_id'
         = (Inl (Error (''Fact '' @ id' @ '' not found for user '' @ uid)), db)
     \<and> invalidateFact invalidate_fact default_user db id' vt user_id'
         = (Inl (Error (''Fact '' @ id' @ '' not found for user '' @ uid)), db)
     \<and> deleteFact delete_fact default_user db id' user_id'
         = (Inl (Error (''Fact '' @ id' @ '' not found for user '' @ uid)), db))
    \<and> ''Fact '' @ id' @ '' not found for user '' @ uid \<noteq> ''Fact '' @ id' @ '' not found''"
proof -
  have "length (''Fact '' @ id' @ '' not found for user '' @ uid)
          \<noteq> length (''Fact '' @ id' @ '' not found'')"
    by simp
  then have "''Fact '' @ id' @ '' not found for user '' @ uid \<noteq> ''Fact '' @ id' @ '' not found''"
    by metis
  then show ?thesis
    using assms by (simp add: updateFact_def invalidateFact_def deleteFact_def)
qed

theorem scoped_mutations_reject_witness:
  "or_default (Some ''alice'') None = Some ''alice'' \<and> ''alice'' \<noteq> []
   \<and> find (\<lambda>r. fact_id r = ''f3'') [bob_acme] = Some bob_acme
   \<and> user_id bob_acme \<noteq> Some ''alice''
   \<and> deleteFact delete_fact_spec None [bob_acme] ''f3'' (Some ''alice'')
       = (Inl (Error ''Fact f3 not found for user alice''), [bob_acme])
   \<and> deleteFact delete_fact_spec None [bob_acme] ''f3'' (Some ''bob'') = (Inr (), [])"
proof -
  have a: "or_default (Some ''alice'') None = Some ''alice''" by code_simp
  have b: "''alice'' \<noteq> []" by simp
  have c: "find (\<lambda>r. fact_id r = ''f3'') [bob_acme] = Some bob_acme" by (simp add: bob_acme_def)
  have d: "user_id bob_acme \<noteq> Some ''alice''" by (simp add: bob_acme_def)
  have e: "deleteFact delete_fact_spec None [bob_acme] ''f3'' (Some ''bob'') = (Inr (), [])"
    by code_simp
  from scoped_mutations_reject [OF a b, of "''f3''" "[bob_acme]" update_fact_spec None None
      "invalidate_fact_spec 0" None delete_fact_spec] c d
  have "deleteFact delete_fact_spec None [bob_acme] ''f3'' (Some ''alice'')
       = (Inl (Error (''Fact '' @ ''f3'' @ '' not found for user '' @ ''alice'')), [bob_acme])"
    by blast
  then have f: "deleteFact delete_fact_spec None [bob_acme] ''f3'' (Some ''alice'')
       = (Inl (Error ''Fact f3 not found for user alice''), [bob_acme])"
    by simp
  from a b c d e f show ?thesis by blast
qed

text \<open>
  The claim as stated makes the two failures indistinguishable. For each of the three
  operations, alice's call on bob's fact \<^verbatim>\<open>f3\<close> and her call on an empty table fail
  with different errors.
\<close>

theorem foreign_and_missing_fact_differ:
  "updateFact update_fact_spec None [bob_acme] ''f3'' (Some 0.5) None (Some ''alice'')
     = (Inl (Error ''Fact f3 not found for user alice''), [bob_acme])
   \<and> updateFact update_fact_spec None [] ''f3'' (Some 0.5) None (Some ''alice'')
     = (Inl (Error ''Fact f3 not found''), [])
   \<and> invalidateFact (invalidate_fact_spec 0) None [bob_acme] ''f3'' None (Some ''alice'')
     = (Inl (Error ''Fact f3 not found for user alice''), [bob_acme])
   \<and> invalidateFact (invalidate_fact_spec 0) None [] ''f3'' None (Some ''alice'')
     = (Inl (Error ''Fact f3 not found''), [])
   \<and> deleteFact delete_fact_spec None [bob_acme] ''f3'' (Some ''alice'')
     = (Inl (Error ''Fact f3 not found for user alice''), [bob_acme])
   \<and> deleteFact delete_fact_spec None [] ''f3'' (Some ''alice'')
     = (Inl (Error ''Fact f3 not found''), [])
   \<and> Error ''Fact f3 not found for user alice'' \<noteq> Error ''Fact f3 not found''"
  by code_simp

section \<open>Listing a user's memories of one sector\<close>

text \<open>
  Claim C10. When \<^verbatim>\<open>Memory.list\<close> is called with a user id and a sector, the page of
  \<open>limit\<close> rows from \<open>offset\<close> is taken from all memories of the user, and the sector
  filter is applied to that page. Hence a call can return fewer than \<open>limit\<close> rows, even
  none, although the user has memories of the requested primary sector outside the page:
  such a table exists. Without a user id (and without a default user) the sector goes
  into the paged statement, so the page is taken from the rows of the sector and every
  row of the result has it.
\<close>

theorem list_pages_before_sector_filter:
  "(uid \<noteq> [] \<and> sector \<noteq> [] \<longrightarrow>
      list_memories (q_of db) default_user (Some uid) limit' offset' (Some sector)
        = filter (\<lambda>row. primary_sector row = sector)
            (page (case limit' of None \<Rightarrow> 10 | Some n \<Rightarrow> if n = 0 then 10 else n)
                  (case offset' of None \<Rightarrow> 0 | Some n \<Rightarrow> n)
                  (filter (\<lambda>m. mem_user_id m = Some uid) db)))
   \<and> (sector \<noteq> [] \<longrightarrow>
      list_memories (q_of db) None None limit' offset' (Some sector)
        = page (case limit' of None \<Rightarrow> 10 | Some n \<Rightarrow> if n = 0 then 10 else n)
               (case offset' of None \<Rightarrow> 0 | Some n \<Rightarrow> n)
               (filter (\<lambda>m. primary_sector m = sector) db)
      \<and> (\<forall>row \<in> set (list_memories (q_of db) None None limit' offset' (Some sector)).
            primary_sector row = sector))
   \<and> (\<exists>db' u s n. 0 < n
        \<and> list_memories (q_of db') None (Some u) (Some n) None (Some s) = []
        \<and> (\<exists>m \<in> set db'. mem_user_id m = Some u \<and> primary_sector m = s))"
proof -
  have scoped: "list_memories (q_of db) default_user (Some uid) limit' offset' (Some sector)
        = filter (\<lambda>row. primary_sector row = sector)
            (page (case limit' of None \<Rightarrow> 10 | Some n \<Rightarrow> if n = 0 then 10 else n)
                  (case offset' of None \<Rightarrow> 0 | Some n \<Rightarrow> n)
                  (filter (\<lambda>m. mem_user_id m = Some uid) db))"
    if "uid \<noteq> [] \<and> sector \<noteq> []"
    using that by (simp add: list_memories_def or_default_def truthy_def q_of_def)
  have unscoped: "list_memories (q_of db) None None limit' offset' (Some sector)
        = page (case limit' of None \<Rightarrow> 10 | Some n \<Rightarrow> if n = 0 then 10 else n)
               (case offset' of None \<Rightarrow> 0 | Some n \<Rightarrow> n)
               (filter (\<lambda>m. primary_sector m = sector) db)"
    if "sector \<noteq> []"
    using that by (simp add: list_memories_def or_default_def truthy_def q_of_def)
  have matching: "\<forall>row \<in> set (list_memories (q_of db) None None limit' offset' (Some sector)).
            primary_sector row = sector"
    if "sector \<noteq> []"
    unfolding unscoped [OF that] page_def by (auto dest!: in_set_takeD in_set_dropD)
  have "(0::nat) < 1
        \<and> list_memories (q_of alice_memories) None (Some ''alice'') (Some 1) None
            (Some ''episodic'') = []
        \<and> (\<exists>m \<in> set alice_memories. mem_user_id m = Some ''alice''
              \<and> primary_sector m = ''episodic'')"
    by code_simp
  then have short: "\<exists>db' u s n. 0 < n
        \<and> list_memories (q_of db') None (Some u) (Some n) None (Some s) = []
        \<and> (\<exists>m \<in> set db'. mem_user_id m = Some u \<and> primary_sector m = s)"
    by (intro exI)
  from scoped unscoped matching short show ?thesis by (intro conjI impI)
qed

theorem list_pages_before_sector_filter_witness:
  "''alice'' \<noteq> [] \<and> ''episodic'' \<noteq> []
   \<and> list_memories (q_of alice_memories) None (Some ''alice'') (Some 1) None (Some ''episodic'')
       = []
   \<and> list_memories (q_of alice_memories) None (Some ''alice'') (Some 2) None (Some ''episodic'')
       = [\<lparr>mem_id = ''m1'', mem_user_id = Some ''alice'',
            mem_content = ''alice met bob yesterday'', primary_sector = ''episodic''\<rparr>]
   \<and> list_memories (q_of alice_memories) None None (Some 1) None (Some ''episodic'')
       = [\<lparr>mem_id = ''m1'', mem_user_id = Some ''alice'',
            mem_content = ''alice met bob yesterday'', primary_sector = ''episodic''\<rparr>]"
proof -
  have a: "''alice'' \<noteq> [] \<and> ''episodic'' \<noteq> []" by simp
  have b: "''episodic'' \<noteq> []" by simp
  have p1: "filter (\<lambda>row. primary_sector row = ''episodic'')
        (page 1 0 (filter (\<lambda>m. mem_user_id m = Some ''alice'') alice_memories)) = []"
    by code_simp
  have p2: "filter (\<lambda>row. primary_sector row = ''episodic'')
        (page 2 0 (filter (\<lambda>m. mem_user_id m = Some ''alice'') alice_memories))
      = [\<lparr>mem_id = ''m1'', mem_user_id = Some ''alice'',
            mem_content = ''alice met bob yesterday'', primary_sector = ''episodic''\<rparr>]"
    by code_simp
  have p3: "page 1 0 (filter (\<lambda>m. primary_sector m = ''episodic'') alice_memories)
      = [\<lparr>mem_id = ''m1'', mem_user_id = Some ''alice'',
            mem_content = ''alice met bob yesterday'', primary_sector = ''episodic''\<rparr>]"
    by code_simp
  have 1: "list_memories (q_of alice_memories) None (Some ''alice'') (Some 1) None
      (Some ''episodic'') = []"
    using list_pages_before_sector_filter [THEN conjunct1, THEN mp, OF a,
        of alice_memories None "Some 1" None] p1
    by simp
  have 2: "list_memories (q_of alice_memories) None (Some ''alice'') (Some 2) None
      (Some ''episodic'')
      = [\<lparr>mem_id = ''m1'', mem_user_id = Some ''alice'',
            mem_content = ''alice met bob yesterday'', primary_sector = ''episodic''\<rparr>]"
    using list_pages_before_sector_filter [THEN conjunct1, THEN mp, OF a,
        of alice_memories None "Some 2" None] p2
    by simp
  have 3: "list_memories (q_of alice_memories) None None (Some 1) None (Some ''episodic'')
      = [\<lparr>mem_id = ''m1'', mem_user_id = Some ''alice'',
            mem_content = ''alice met bob yesterday'', primary_sector = ''episodic''\<rparr>]"
    using list_pages_before_sector_filter [THEN conjunct2, THEN conjunct1, THEN mp, OF b,
        THEN conjunct1, of alice_memories "Some 1" None] p3
    by simp
  from a 1 2 3 show ?thesis by (intro conjI) simp_all
qed

section \<open>Cross-linking facts to the new memory\<close>

text \<open>
  Claim C9. Let \<^verbatim>\<open>store\<close> be called with type \<^verbatim>\<open>both\<close>, a non-empty facts array and
  a non-empty content, and let the semantic insert succeed with a (non-empty) memory id.
  Then \<^verbatim>\<open>store\<close> calls \<^verbatim>\<open>add_hsg_memory\<close> first and \<^verbatim>\<open>batch_insert_facts\<close> second,
  with one fact per given fact, and the metadata of every fact inserted maps
  \<^verbatim>\<open>source_memory_id\<close> to the id of the new memory. With type \<^verbatim>\<open>factual\<close> and a
  non-empty facts array the only call is \<^verbatim>\<open>batch_insert_facts\<close>, no memory is created,
  and the metadata of every fact inserted is the caller's metadata as given: nothing is
  added to it.
\<close>

theorem store_links_facts_to_memory:
  "(\<forall>h. opt_type opts = Some Both \<and> opt_facts opts = Some facts \<and> facts \<noteq> []
        \<and> content \<noteq> []
        \<and> add_hsg_memory content
             (case opt_tags opts of None \<Rightarrow> [] | Some ts \<Rightarrow> ts)
             (case opt_metadata opts of None \<Rightarrow> Map.empty | Some m \<Rightarrow> m)
             (or_default (opt_user_id opts) default_user) = Inr h
        \<and> hsg_id h \<noteq> [] \<longrightarrow>
      (\<exists>inserted.
         snd (store add_hsg_memory batch_insert_facts default_user now content opts)
           = [Add_hsg_memory content
                (case opt_tags opts of None \<Rightarrow> [] | Some ts \<Rightarrow> ts)
                (case opt_metadata opts of None \<Rightarrow> Map.empty | Some m \<Rightarrow> m)
                (or_default (opt_user_id opts) default_user),
              Batch_insert_facts inserted]
         \<and> length inserted = length facts
         \<and> (\<forall>f \<in> set inserted. ins_metadata f ''source_memory_id'' = Some (hsg_id h))))
   \<and> (opt_type opts = Some Factual \<and> opt_facts opts = Some facts \<and> facts \<noteq> [] \<longrightarrow>
      (\<exists>inserted.
         snd (store add_hsg_memory batch_insert_facts default_user now content opts)
           = [Batch_insert_facts inserted]
         \<and> length inserted = length facts
         \<and> (\<forall>f \<in> set inserted.
               ins_metadata f = (case opt_metadata opts of None \<Rightarrow> Map.empty | Some m \<Rightarrow> m))))"
proof (intro conjI allI impI)
  fix h
  assume a: "opt_type opts = Some Both \<and> opt_facts opts = Some facts \<and> facts \<noteq> []
        \<and> content \<noteq> []
        \<and> add_hsg_memory content
             (case opt_tags opts of None \<Rightarrow> [] | Some ts \<Rightarrow> ts)
             (case opt_metadata opts of None \<Rightarrow> Map.empty | Some m \<Rightarrow> m)
             (or_default (opt_user_id opts) default_user) = Inr h
        \<and> hsg_id h \<noteq> []"
  then show "\<exists>inserted.
         snd (store add_hsg_memory batch_insert_facts default_user now content opts)
           = [Add_hsg_memory content
                (case opt_tags opts of None \<Rightarrow> [] | Some ts \<Rightarrow> ts)
                (case opt_metadata opts of None \<Rightarrow> Map.empty | Some m \<Rightarrow> m)
                (or_default (opt_user_id opts) default_user),
              Batch_insert_facts inserted]
         \<and> length inserted = length facts
         \<and> (\<forall>f \<in> set inserted. ins_metadata f ''source_memory_id'' = Some (hsg_id h))"
    by (cases "batch_insert_facts
          (map (\<lambda>f. \<lparr>ins_subject = in_subject f, ins_predicate = in_predicate f,
                  ins_object = in_object f,
                  ins_valid_from = (case in_valid_from f of None \<Rightarrow> now | Some v \<Rightarrow> v),
                  ins_confidence = (case in_confidence f of None \<Rightarrow> 1 | Some c \<Rightarrow> c),
                  ins_metadata = (case opt_metadata opts of None \<Rightarrow> Map.empty | Some m \<Rightarrow> m)
                     (''source_memory_id'' \<mapsto> hsg_id h),
                  ins_user_id = or_default (opt_user_id opts) default_user\<rparr>) facts)")
       (simp_all add: store_def Let_def)
next
  assume a: "opt_type opts = Some Factual \<and> opt_facts opts = Some facts \<and> facts \<noteq> []"
  then show "\<exists>inserted.
         snd (store add_hsg_memory batch_insert_facts default_user now content opts)
           = [Batch_insert_facts inserted]
         \<and> length inserted = length facts
         \<and> (\<forall>f \<in> set inserted.
               ins_metadata f = (case opt_metadata opts of None \<Rightarrow> Map.empty | Some m \<Rightarrow> m))"
    by (cases "batch_insert_facts
          (map (\<lambda>f. \<lparr>ins_subject = in_subject f, ins_predicate = in_predicate f,
                  ins_object = in_object f,
                  ins_valid_from = (case in_valid_from f of None \<Rightarrow> now | Some v \<Rightarrow> v),
                  ins_confidence = (case in_confidence f of None \<Rightarrow> 1 | Some c \<Rightarrow> c),
                  ins_metadata = (case opt_metadata opts of None \<Rightarrow> Map.empty | Some m \<Rightarrow> m),
                  ins_user_id = or_default (opt_user_id opts) default_user\<rparr>) facts)")
       (simp_all add: store_def Let_def)
qed

theorem store_links_facts_to_memory_witness:
  "opt_type (store_opts Both) = Some Both \<and> opt_facts (store_opts Both) = Some john_facts
   \<and> john_facts \<noteq> [] \<and> ''John started at Acme Corp'' \<noteq> []
   \<and> (\<exists>inserted.
         snd (store hsg_stand_in facts_stand_in None 0 ''John started at Acme Corp''
                (store_opts Both))
           = [Add_hsg_memory ''John started at Acme Corp'' [''employment''] Map.empty
                (Some ''alice''),
              Batch_insert_facts inserted]
         \<and> length inserted = 2
         \<and> (\<forall>f \<in> set inserted. ins_metadata f ''source_memory_id'' = Some ''mem-1''))
   \<and> (\<exists>inserted.
         snd (store hsg_stand_in facts_stand_in None 0 [] (store_opts Factual))
           = [Batch_insert_facts inserted]
         \<and> length inserted = 2
         \<and> (\<forall>f \<in> set inserted. ins_metadata f = Map.empty))"
proof -
  let ?h = "\<lparr>hsg_id = ''mem-1'', hsg_primary_sector = ''semantic'',
             hsg_sectors = [''semantic'']\<rparr>"
  have o: "opt_type (store_opts Both) = Some Both" "opt_facts (store_opts Both) = Some john_facts"
    "opt_tags (store_opts Both) = Some [''employment'']" "opt_metadata (store_opts Both) = None"
    "opt_user_id (store_opts Both) = Some ''alice''"
    "opt_type (store_opts Factual) = Some Factual"
    "opt_facts (store_opts Factual) = Some john_facts"
    "opt_metadata (store_opts Factual) = None"
    by (simp_all add: store_opts_def)
  have f: "john_facts \<noteq> []" "length john_facts = 2" by (simp_all add: john_facts_def)
  have c: "''John started at Acme Corp'' \<noteq> []" by simp
  have u: "or_default (Some ''alice'') None = Some ''alice''"
    by (simp add: or_default_def truthy_def)
  have h: "hsg_stand_in ''John started at Acme Corp'' [''employment''] Map.empty (Some ''alice'')
             = Inr ?h" "hsg_id ?h \<noteq> []"
    by (simp_all add: hsg_stand_in_def)
  note t = store_links_facts_to_memory [where facts = john_facts
      and add_hsg_memory = hsg_stand_in and batch_insert_facts = facts_stand_in
      and default_user = None and now = 0]
  from t [where opts = "store_opts Both" and content = "''John started at Acme Corp''",
      THEN conjunct1, THEN spec, of ?h] o f c u h
  have both: "\<exists>inserted.
         snd (store hsg_stand_in facts_stand_in None 0 ''John started at Acme Corp''
                (store_opts Both))
           = [Add_hsg_memory ''John started at Acme Corp'' [''employment''] Map.empty
                (Some ''alice''),
              Batch_insert_facts inserted]
         \<and> length inserted = 2
         \<and> (\<forall>f \<in> set inserted. ins_metadata f ''source_memory_id'' = Some ''mem-1'')"
    by simp
  from t [where opts = "store_opts Factual" and content = "[]", THEN conjunct2] o f
  have factual: "\<exists>inserted.
         snd (store hsg_stand_in facts_stand_in None 0 [] (store_opts Factual))
           = [Batch_insert_facts inserted]
         \<and> length inserted = 2
         \<and> (\<forall>f \<in> set inserted. ins_metadata f = Map.empty)"
    by simp
  from o(1,2) f(1) c both factual show ?thesis by (intro conjI)
qed

section \<open>Similarity search on the pgvector store\<close>

text \<open>
  Claim C8, as the code has it. \<^verbatim>\<open>searchSimilar\<close> sends one statement whose
  \<^verbatim>\<open>limit\<close> is the \<open>topK\<close> it was given: it applies no over-fetch factor. The sector
  and (when a user id is given) the user are conditions of that statement. The result
  has at most \<open>topK\<close> entries; each is the id of a row of the table in the sector, owned
  by the user when a user id is given, and its score is the cosine similarity of the
  row's vector with the query (one minus the cosine distance). This holds for every
  scan that yields rows of the table only, exact or approximate.
\<close>

theorem searchSimilar_limit_and_scope:
  assumes "set (scan queryVec table) \<subseteq> set table"
  shows "q_limit (searchSimilar_query sector queryVec topK user_id') = topK
    \<and> length (searchSimilar scan table sector queryVec topK user_id') \<le> topK
    \<and> (\<forall>hit \<in> set (searchSimilar scan table sector queryVec topK user_id').
          \<exists>r \<in> set table. vec_id r = fst hit \<and> vec_sector r = sector
             \<and> snd hit = cosine_similarity (vec r) queryVec
             \<and> (truthy user_id' \<longrightarrow> Some (vec_user_id r) = user_id'))"
proof -
  let ?q = "searchSimilar_query sector queryVec topK user_id'"
  have q: "q_vector ?q = queryVec" "q_sector ?q = sector" "q_limit ?q = topK"
    "q_user_id ?q = (if truthy user_id' then user_id' else None)"
    by (simp_all add: searchSimilar_query_def)
  let ?P = "\<lambda>r. vec_sector r = sector
              \<and> (case (if truthy user_id' then user_id' else None) of None \<Rightarrow> True
                  | Some u \<Rightarrow> vec_user_id r = u)"
  let ?rows = "take topK (filter ?P (scan queryVec table))"
  have res: "searchSimilar scan table sector queryVec topK user_id'
      = map (\<lambda>r. (vec_id r, 1 - cosine_distance (vec r) queryVec)) ?rows"
    unfolding searchSimilar_def all_async_similarity_def Let_def q by (simp add: comp_def)
  have len: "length (searchSimilar scan table sector queryVec topK user_id') \<le> topK"
    unfolding res by simp
  have hits: "\<forall>hit \<in> set (searchSimilar scan table sector queryVec topK user_id').
          \<exists>r \<in> set table. vec_id r = fst hit \<and> vec_sector r = sector
             \<and> snd hit = cosine_similarity (vec r) queryVec
             \<and> (truthy user_id' \<longrightarrow> Some (vec_user_id r) = user_id')"
  proof
    fix hit assume "hit \<in> set (searchSimilar scan table sector queryVec topK user_id')"
    then obtain r where r: "r \<in> set ?rows"
      and hit: "hit = (vec_id r, 1 - cosine_distance (vec r) queryVec)"
      unfolding res by auto
    from r have "r \<in> set (filter ?P (scan queryVec table))" by (rule in_set_takeD)
    then have "r \<in> set (scan queryVec table)" and P: "?P r" by simp_all
    with assms have "r \<in> set table" by blast
    moreover from P have "truthy user_id' \<longrightarrow> Some (vec_user_id r) = user_id'"
      by (auto simp: truthy_def split: option.splits)
    ultimately show "\<exists>r \<in> set table. vec_id r = fst hit \<and> vec_sector r = sector
             \<and> snd hit = cosine_similarity (vec r) queryVec
             \<and> (truthy user_id' \<longrightarrow> Some (vec_user_id r) = user_id')"
      using P hit by (auto simp: cosine_distance_def)
  qed
  from q(3) len hits show ?thesis by blast
qed

theorem searchSimilar_limit_and_scope_witness:
  "set (exact_scan [1, 0] two_vectors) \<subseteq> set two_vectors
   \<and> q_limit (searchSimilar_query ''semantic'' [1, 0] 1 (Some ''alice'')) = 1
   \<and> length (searchSimilar exact_scan two_vectors ''semantic'' [1, 0] 1 (Some ''alice'')) \<le> 1
   \<and> searchSimilar exact_scan two_vectors ''semantic'' [1, 0] 1 (Some ''alice'')
       = [(''a1'', 1)]
   \<and> searchSimilar (\<lambda>queryVec table. take 1 table) two_vectors ''semantic'' [1, 0] 1
        (Some ''alice'') = []"
proof -
  have s: "set (exact_scan [1, 0] two_vectors) \<subseteq> set two_vectors"
    by (simp add: exact_scan_def)
  have v: "searchSimilar exact_scan two_vectors ''semantic'' [1, 0] 1 (Some ''alice'')
       = [(''a1'', 1)]"
    by (simp add: searchSimilar_def all_async_similarity_def searchSimilar_query_def
          truthy_def exact_scan_def two_vectors_def cosine_distance_def cosine_similarity_def
          dot_product_def)
  have a: "searchSimilar (\<lambda>queryVec table. take 1 table) two_vectors ''semantic'' [1, 0] 1
        (Some ''alice'') = []"
    by (simp add: searchSimilar_def all_async_similarity_def searchSimilar_query_def
          truthy_def two_vectors_def)
  from searchSimilar_limit_and_scope [where scan = exact_scan and queryVec = "[1, 0]"
      and table = two_vectors and sector = "''semantic''" and topK = 1
      and user_id' = "Some ''alice''", OF s]
  have "q_limit (searchSimilar_query ''semantic'' [1, 0] 1 (Some ''alice'')) = 1"
    and "length (searchSimilar exact_scan two_vectors ''semantic'' [1, 0] 1 (Some ''alice''))
           \<le> 1"
    by blast+
  with s v a show ?thesis by blast
qed

text \<open>
  The claim as stated has \<^verbatim>\<open>searchSimilar\<close> request \<open>k \<cdot> F\<close> neighbours with \<open>F \<ge> 3\<close>.
  For \<open>k = 10\<close> the statement's limit is 10, which is no such multiple.
\<close>

theorem searchSimilar_requests_topK:
  "q_limit (searchSimilar_query ''semantic'' [1, 0] 10 (Some ''alice'')) = 10
   \<and> \<not> (\<exists>F \<ge> 3. q_limit (searchSimilar_query ''semantic'' [1, 0] 10 (Some ''alice''))
                    = 10 * F)"
  by (simp add: searchSimilar_query_def)

end
